theory Spec2Isabelle
  imports Main "HOL-Library.Word"
begin

unbundle bit_operations_syntax

section \<open>Hex helpers (src/types/ink/support.ts)\<close>

text \<open>
  A \<open>Uint8Array\<close> is a list of 8-bit words; a JavaScript string is a list of
  characters (code units below 256). Offsets, lengths and the decoded \<open>number\<close>
  values are natural numbers or integers: every such value the decoders compute from
  a buffer stays far below \<open>2^53\<close>, where a JavaScript number is exact.
\<close>

type_synonym byte = "8 word"

definition strip0x :: "string \<Rightarrow> string" where
  \<comment> \<open>\<open>hex.startsWith('0x') ? hex.slice(2) : hex\<close>\<close>
  "strip0x hex = (if take 2 hex = ''0x'' then drop 2 hex else hex)"

definition isWhiteSpace :: "char \<Rightarrow> bool" where
  \<comment> \<open>the white space and line terminator code units below 256 that \<open>parseInt\<close> skips\<close>
  "isWhiteSpace c = (of_char c \<in> {9, 10, 11, 12, 13, 32, 160 :: nat})"

definition hexDigitVal :: "char \<Rightarrow> nat option" where
  "hexDigitVal c =
     (let n = (of_char c :: nat) in
      if 48 \<le> n \<and> n \<le> 57 then Some (n - 48)
      else if 97 \<le> n \<and> n \<le> 102 then Some (n - 87)
      else if 65 \<le> n \<and> n \<le> 70 then Some (n - 55)
      else None)"

definition isHexDigit :: "char \<Rightarrow> bool" where
  "isHexDigit c = (hexDigitVal c \<noteq> None)"

definition parseInt16 :: "string \<Rightarrow> int option" where
  \<comment> \<open>\<open>parseInt(s, 16)\<close>; \<open>None\<close> is \<open>NaN\<close>. Used on slices of at most two code units.\<close>
  "parseInt16 s =
     (let s1 = dropWhile isWhiteSpace s;
          neg = (take 1 s1 = ''-'');
          s2 = (if take 1 s1 = ''+'' \<or> take 1 s1 = ''-'' then drop 1 s1 else s1);
          s3 = (if take 2 s2 = ''0x'' \<or> take 2 s2 = ''0X'' then drop 2 s2 else s2);
          z = takeWhile isHexDigit s3;
          m = foldl (\<lambda>a c. 16 * a + the (hexDigitVal c)) 0 z
      in if z = [] then None else Some (if neg then - int m else int m))"

definition toUint8 :: "int option \<Rightarrow> byte" where
  \<comment> \<open>storing a number into a \<open>Uint8Array\<close>: \<open>NaN\<close> becomes 0, an integer wraps modulo 256\<close>
  "toUint8 v = (case v of None \<Rightarrow> 0 | Some i \<Rightarrow> word_of_int i)"

fun hexPairs :: "string \<Rightarrow> byte list" where
  \<comment> \<open>the loop \<open>for (i = 0; i < clean.length; i += 2) out[i >> 1] = parseInt(clean.slice(i, i + 2), 16)\<close>:
      \<open>out\<close> has \<open>clean.length / 2\<close> entries, rounded down, and the write of a last
      single character falls outside \<open>out\<close> and is dropped\<close>
  "hexPairs (a # b # rest) = toUint8 (parseInt16 [a, b]) # hexPairs rest"
| "hexPairs _ = []"

definition hexToBytes :: "string \<Rightarrow> byte list" where
  "hexToBytes hex = hexPairs (strip0x hex)"

definition hexDigit :: "nat \<Rightarrow> char" where
  "hexDigit n = ''0123456789abcdef'' ! n"

fun toString16 :: "nat \<Rightarrow> string" where
  \<comment> \<open>\<open>n.toString(16)\<close>\<close>
  "toString16 n = (if n < 16 then [hexDigit n] else toString16 (n div 16) @ [hexDigit (n mod 16)])"

definition padStart2 :: "string \<Rightarrow> string" where
  \<comment> \<open>\<open>s.padStart(2, '0')\<close>\<close>
  "padStart2 s = replicate (2 - length s) CHR ''0'' @ s"

definition bytesToHex :: "byte list \<Rightarrow> string" where
  "bytesToHex bytes = foldl (\<lambda>hex b. hex @ padStart2 (toString16 (unat b))) ''0x'' bytes"

definition isLowerHex :: "char \<Rightarrow> bool" where
  \<comment> \<open>a digit of a lowercase hex string\<close>
  "isLowerHex c = (c \<in> set ''0123456789abcdef'')"

section \<open>JavaScript values and errors\<close>

text \<open>
  The values the decoders build. \<open>JNum\<close> is a \<open>number\<close> holding an integer, \<open>JBig\<close> a
  \<open>bigint\<close>, \<open>JBytes\<close> a \<open>Uint8Array\<close>, \<open>JUtf8 bs\<close> the string that
  \<open>new TextDecoder().decode\<close> returns for the bytes \<open>bs\<close>. An object is the list of its
  properties in insertion order.
\<close>

datatype jsval =
    JUndefined
  | JNull
  | JBool bool
  | JNum int
  | JBig int
  | JStr string
  | JUtf8 "byte list"
  | JBytes "byte list"
  | JArr "jsval list"
  | JObj "(string \<times> jsval) list"

datatype error =
    Error string
  | TypeError
  | ReferenceError
  | RangeError

fun objSet :: "'k \<Rightarrow> 'v \<Rightarrow> ('k \<times> 'v) list \<Rightarrow> ('k \<times> 'v) list" where
  \<comment> \<open>\<open>obj[k] = v\<close>, and \<open>map.set(k, v)\<close> of a \<open>Map\<close>: an existing key keeps its place, a new
      one is added last\<close>
  "objSet k v [] = [(k, v)]"
| "objSet k v ((k', v') # kvs) = (if k = k' then (k, v) # kvs else (k', v') # objSet k v kvs)"

definition assert :: "bool \<Rightarrow> string \<Rightarrow> error + unit" where
  \<comment> \<open>\<open>if (!condition) throw new Error(message)\<close>\<close>
  "assert condition message = (if condition then Inr () else Inl (Error message))"

section \<open>SCALE readers (src/types/ink/support.ts)\<close>

definition byteAt :: "byte list \<Rightarrow> nat \<Rightarrow> nat option" where
  \<comment> \<open>\<open>buf[offset]\<close>; \<open>None\<close> is \<open>undefined\<close>, read past the end of the array\<close>
  "byteAt buf i = (if i < length buf then Some (unat (buf ! i)) else None)"

definition numOf :: "nat option \<Rightarrow> jsval" where
  "numOf v = (case v of None \<Rightarrow> JUndefined | Some n \<Rightarrow> JNum (int n))"

definition toInt32 :: "nat option \<Rightarrow> 32 word" where
  \<comment> \<open>the operand of a bitwise operator: \<open>undefined\<close> counts as 0\<close>
  "toInt32 v = (case v of None \<Rightarrow> 0 | Some n \<Rightarrow> of_nat n)"

definition slice :: "byte list \<Rightarrow> nat \<Rightarrow> nat \<Rightarrow> byte list" where
  \<comment> \<open>\<open>buf.slice(start, end)\<close> for non-negative bounds, cut at the end of the array\<close>
  "slice buf start end' = take (end' - start) (drop start buf)"

definition readU8 :: "byte list \<Rightarrow> nat \<Rightarrow> jsval \<times> nat" where
  "readU8 buf offset = (numOf (byteAt buf offset), offset + 1)"

definition readU16 :: "byte list \<Rightarrow> nat \<Rightarrow> jsval \<times> nat" where
  \<comment> \<open>\<open>buf[offset] | (buf[offset + 1] << 8)\<close>\<close>
  "readU16 buf offset =
     (JNum (sint (toInt32 (byteAt buf offset) OR push_bit 8 (toInt32 (byteAt buf (offset + 1))))),
      offset + 2)"

definition readU32 :: "byte list \<Rightarrow> nat \<Rightarrow> jsval \<times> nat" where
  \<comment> \<open>the four bytes combined with \<open>|\<close> and \<open><<\<close>, then \<open>v >>> 0\<close>\<close>
  "readU32 buf offset =
     (JNum (uint (toInt32 (byteAt buf offset) OR push_bit 8 (toInt32 (byteAt buf (offset + 1)))
                  OR push_bit 16 (toInt32 (byteAt buf (offset + 2)))
                  OR push_bit 24 (toInt32 (byteAt buf (offset + 3))))),
      offset + 4)"

fun bigLoop :: "byte list \<Rightarrow> nat \<Rightarrow> nat list \<Rightarrow> int \<Rightarrow> error + int" where
  \<comment> \<open>\<open>for (i ...) v |= BigInt(buf[offset + i]) << BigInt(i * 8)\<close> over the given values of
      \<open>i\<close>; \<open>BigInt(undefined)\<close> throws a TypeError\<close>
  "bigLoop buf offset [] v = Inr v"
| "bigLoop buf offset (i # is) v =
     (case byteAt buf (offset + i) of
        None \<Rightarrow> Inl TypeError
      | Some b \<Rightarrow> bigLoop buf offset is (v OR push_bit (i * 8) (int b)))"

definition readU64 :: "byte list \<Rightarrow> nat \<Rightarrow> error + jsval \<times> nat" where
  "readU64 buf offset =
     (case bigLoop buf offset [0..<8] 0 of Inl e \<Rightarrow> Inl e | Inr v \<Rightarrow> Inr (JBig v, offset + 8))"

definition readU128 :: "byte list \<Rightarrow> nat \<Rightarrow> error + jsval \<times> nat" where
  "readU128 buf offset =
     (case bigLoop buf offset [0..<16] 0 of Inl e \<Rightarrow> Inl e | Inr v \<Rightarrow> Inr (JBig v, offset + 16))"

definition readCompactU32 :: "byte list \<Rightarrow> nat \<Rightarrow> error + jsval \<times> nat" where
  "readCompactU32 buf offset =
     (let b0 = toInt32 (byteAt buf offset);
          flag = b0 AND 3
      in if flag = 0 then Inr (JNum (sint (signed_drop_bit 2 b0)), offset + 1)
         else if flag = 1 then
           (let lo = b0; hi = toInt32 (byteAt buf (offset + 1))
            in Inr (JNum (uint (signed_drop_bit 2 (lo OR push_bit 8 hi))), offset + 2))
         else if flag = 2 then
           (let a = b0; b = toInt32 (byteAt buf (offset + 1));
                c = toInt32 (byteAt buf (offset + 2)); d = toInt32 (byteAt buf (offset + 3))
            in Inr (JNum (uint (drop_bit 2 (a OR push_bit 8 b OR push_bit 16 c OR push_bit 24 d))),
                    offset + 4))
         else
           (let byteLen = 4 + nat (sint (signed_drop_bit 2 b0))
            in case bigLoop buf (offset + 1) [0..<byteLen] 0 of
                 Inl e \<Rightarrow> Inl e
               | Inr val \<Rightarrow> Inr (JBig val, offset + 1 + byteLen)))"

definition Number :: "jsval \<Rightarrow> nat" where
  \<comment> \<open>\<open>Number(len.value)\<close> of a compact length, which is a non-negative number or bigint\<close>
  "Number v = (case v of JNum n \<Rightarrow> nat n | JBig n \<Rightarrow> nat n | _ \<Rightarrow> 0)"

definition readString :: "byte list \<Rightarrow> nat \<Rightarrow> error + jsval \<times> nat" where
  "readString buf offset =
     (case readCompactU32 buf offset of
        Inl e \<Rightarrow> Inl e
      | Inr (len, start) \<Rightarrow>
          (let end' = start + Number len in Inr (JUtf8 (slice buf start end'), end')))"

section \<open>Contract metadata\<close>

text \<open>
  The Ink! v6 metadata as both decoders read it. A type definition \<open>def\<close> is an object
  with one of the keys \<open>primitive\<close>, \<open>composite\<close>, \<open>variant\<close>, \<open>sequence\<close>,
  \<open>array\<close>, \<open>tuple\<close> (\<open>NoDef\<close>: none of them); the decoders probe the keys in a fixed order.
  A field's or argument's \<open>type\<close> is the type id. An absent \<open>path\<close> is the empty list, an
  absent label or name the empty string or \<open>None\<close>.
\<close>

datatype field = Field (fieldName: "string option") (fieldType: nat)

datatype variantDef =
  VariantDef (variantIndex: nat) (variantName: string) (variantFields: "field list")

datatype typeDef =
    Primitive string
  | Composite "field list"
  | Variant "variantDef list"
  | Sequence nat
  | Array nat nat  \<comment> \<open>\<open>len\<close>, then the element \<open>type\<close>\<close>
  | Tuple "nat list"
  | NoDef

record inkType =
  tdef :: typeDef
  tpath :: "string list"

type_synonym typeTable = "(nat \<times> inkType) list"

record eventArg =
  argLabel :: string
  argType :: nat
  argIndexed :: bool

record eventMeta =
  evLabel :: string
  evArgs :: "eventArg list"
  signature_topic :: string

fun joinDot :: "string list \<Rightarrow> string" where
  \<comment> \<open>\<open>path.join('.')\<close>\<close>
  "joinDot [] = []"
| "joinDot [p] = p"
| "joinDot (p # q # ps) = p @ ''.'' @ joinDot (q # ps)"

definition isH160 :: "inkType \<Rightarrow> bool" where
  "isH160 t = (joinDot (tpath t) = ''primitive_types.H160'')"

fun toString10 :: "nat \<Rightarrow> string" where
  \<comment> \<open>a number in a string concatenation\<close>
  "toString10 n = (if n < 10 then [hexDigit n] else toString10 (n div 10) @ [hexDigit (n mod 10)])"

fun mapResult :: "('a \<Rightarrow> error + 'b) \<Rightarrow> 'a list \<Rightarrow> error + 'b list" where
  \<comment> \<open>apply \<open>f\<close> from left to right; the first exception ends the loop\<close>
  "mapResult f [] = Inr []"
| "mapResult f (x # xs) =
     (case f x of
        Inl e \<Rightarrow> Inl e
      | Inr y \<Rightarrow> (case mapResult f xs of Inl e \<Rightarrow> Inl e | Inr ys \<Rightarrow> Inr (y # ys)))"

section \<open>The decoder generator (gen-ink-decoder.js): generateDecodeCall\<close>

text \<open>
  \<open>generateDecodeCall(typeId, varName, offsetVar)\<close> returns the text of a TypeScript
  expression that decodes one value from the buffer \<open>varName\<close> (always \<open>data\<close>) at the
  offset held in the variable \<open>offsetVar\<close>. The model returns that expression as a term of
  \<open>code\<close>, one constructor per snippet the generator can emit, and \<open>run\<close> below gives the
  value the snippet computes. \<open>offsetVar\<close> is one of five names; a snippet that declares a
  local offset variable records the \<open>offsetVar\<close> it was generated with, because the
  declaration \<open>let currentOffset = currentOffset\<close> (and likewise for the other names) reads
  the new variable before it is initialised.

  The generator calls itself for the member types, to a depth that the type table alone
  decides: the first argument bounds the depth of the call stack, and exceeding it is the
  \<open>RangeError\<close> of a stack overflow.
\<close>

datatype ovar = Offset | CurrentOffset | VariantOffset | VecOffset | ArrOffset

datatype code =
    CallReadU8
  | CallReadU16
  | CallReadU32
  | CallReadU64
  | CallReadU128
  | CodeI8
  | CodeI16
  | CodeI32
  | CodeBool
  | CallReadString
  | AssertFalse string
  | CompositeCode ovar "(string \<times> code) list"
  | UnitVariantCode "string list"
  | SwitchCode ovar "(nat \<times> string \<times> body) list"
  | VecU8Code
  | VecCode ovar code
  | InlineArrayCode ovar "code list"
  | LoopArrayCode ovar nat code
  | H160Code
and body =
    UnitBody
  | StructBody "(string \<times> code) list"
  | TupleBody "code list"

definition primitiveCode :: "string \<Rightarrow> code" where
  "primitiveCode p =
     (if p = ''u8'' then CallReadU8
      else if p = ''u16'' then CallReadU16
      else if p = ''u32'' then CallReadU32
      else if p = ''u64'' then CallReadU64
      else if p = ''u128'' then CallReadU128
      else if p = ''i8'' then CodeI8
      else if p = ''i16'' then CodeI16
      else if p = ''i32'' then CodeI32
      else if p = ''bool'' then CodeBool
      else if p = ''str'' then CallReadString
      else AssertFalse (''Unsupported primitive: '' @ p))"

definition otherShape :: "inkType \<Rightarrow> nat \<Rightarrow> code" where
  \<comment> \<open>what is left when no key of \<open>def\<close> applies: the H160 path, or an unsupported type\<close>
  "otherShape t typeId =
     (if isH160 t then H160Code else AssertFalse (''Unsupported type '' @ toString10 typeId))"

definition fieldNameOr :: "field \<Rightarrow> nat \<Rightarrow> string" where
  \<comment> \<open>\<open>f.name || 'field' + idx\<close>\<close>
  "fieldNameOr f idx =
     (case fieldName f of
        Some n \<Rightarrow> if n \<noteq> [] then n else ''field'' @ toString10 idx
      | None \<Rightarrow> ''field'' @ toString10 idx)"

definition hasName :: "field \<Rightarrow> bool" where
  "hasName f = (case fieldName f of Some n \<Rightarrow> n \<noteq> [] | None \<Rightarrow> False)"

fun generateDecodeCall :: "nat \<Rightarrow> typeTable \<Rightarrow> nat \<Rightarrow> ovar \<Rightarrow> error + code" where
  "generateDecodeCall 0 types typeId offsetVar = Inl RangeError"
| "generateDecodeCall (Suc depth) types typeId offsetVar =
     (case map_of types typeId of
        None \<Rightarrow> Inr (AssertFalse (''Unknown type '' @ toString10 typeId))
      | Some t \<Rightarrow>
          (case tdef t of
             Primitive p \<Rightarrow> Inr (if p \<noteq> [] then primitiveCode p else otherShape t typeId)
           | Composite flds \<Rightarrow>
               (case mapResult
                       (\<lambda>(idx, f).
                          case generateDecodeCall depth types (fieldType f) CurrentOffset of
                            Inl e \<Rightarrow> Inl e
                          | Inr c \<Rightarrow> Inr (fieldNameOr f idx, c))
                       (enumerate 0 flds) of
                  Inl e \<Rightarrow> Inl e
                | Inr fs \<Rightarrow> Inr (CompositeCode offsetVar fs))
           | Variant variants \<Rightarrow>
               if list_all (\<lambda>v. variantFields v = []) variants
               then Inr (UnitVariantCode (map variantName variants))
               else
                 (case mapResult
                         (\<lambda>v.
                            if variantFields v = []
                            then Inr (variantIndex v, variantName v, UnitBody)
                            else if list_ex hasName (variantFields v)
                            then
                              (case mapResult
                                      (\<lambda>(idx, f).
                                         case generateDecodeCall depth types (fieldType f) VariantOffset of
                                           Inl e \<Rightarrow> Inl e
                                         | Inr c \<Rightarrow> Inr (fieldNameOr f idx, c))
                                      (enumerate 0 (variantFields v)) of
                                 Inl e \<Rightarrow> Inl e
                               | Inr fs \<Rightarrow> Inr (variantIndex v, variantName v, StructBody fs))
                            else
                              (case mapResult
                                      (\<lambda>f. generateDecodeCall depth types (fieldType f) VariantOffset)
                                      (variantFields v) of
                                 Inl e \<Rightarrow> Inl e
                               | Inr cs \<Rightarrow> Inr (variantIndex v, variantName v, TupleBody cs)))
                         variants of
                    Inl e \<Rightarrow> Inl e
                  | Inr cases \<Rightarrow> Inr (SwitchCode offsetVar cases))
           | Sequence elementType \<Rightarrow>
               if elementType = 5 then Inr VecU8Code
               else
                 (case generateDecodeCall depth types elementType VecOffset of
                    Inl e \<Rightarrow> Inl e
                  | Inr c \<Rightarrow> Inr (VecCode offsetVar c))
           | Array len elementType \<Rightarrow>
               if elementType = 0 then Inr (otherShape t typeId)
               else if len \<le> 4 then
                 (case mapResult (\<lambda>i. generateDecodeCall depth types elementType ArrOffset) [0..<len] of
                    Inl e \<Rightarrow> Inl e
                  | Inr cs \<Rightarrow> Inr (InlineArrayCode offsetVar cs))
               else
                 (case generateDecodeCall depth types elementType ArrOffset of
                    Inl e \<Rightarrow> Inl e
                  | Inr c \<Rightarrow> Inr (LoopArrayCode offsetVar len c))
           | Tuple ts \<Rightarrow> Inr (otherShape t typeId)
           | NoDef \<Rightarrow> Inr (otherShape t typeId)))"

section \<open>What the generated snippets compute\<close>

definition unitName :: "string list \<Rightarrow> nat option \<Rightarrow> string" where
  \<comment> \<open>\<open>map[idx] || 'Unknown'\<close>\<close>
  "unitName names idx =
     (case idx of
        None \<Rightarrow> ''Unknown''
      | Some i \<Rightarrow> if i < length names \<and> names ! i \<noteq> [] then names ! i else ''Unknown'')"

definition signedOf :: "int \<Rightarrow> int \<Rightarrow> jsval \<Rightarrow> jsval" where
  \<comment> \<open>\<open>r.value > m ? r.value - k : r.value\<close>\<close>
  "signedOf m k v = (case v of JNum n \<Rightarrow> JNum (if n > m then n - k else n) | _ \<Rightarrow> v)"

fun runSimple :: "code \<Rightarrow> byte list \<Rightarrow> nat \<Rightarrow> error + jsval \<times> nat" where
  \<comment> \<open>the snippets that contain no other snippet\<close>
  "runSimple CallReadU8 data off = Inr (readU8 data off)"
| "runSimple CallReadU16 data off = Inr (readU16 data off)"
| "runSimple CallReadU32 data off = Inr (readU32 data off)"
| "runSimple CallReadU64 data off = readU64 data off"
| "runSimple CallReadU128 data off = readU128 data off"
| "runSimple CodeI8 data off =
     \<comment> \<open>\<open>const v = readU8(...)\<close> is the result object, so \<open>v > 127\<close> is false and the value is \<open>v\<close>\<close>
     Inr (JObj [(''value'', fst (readU8 data off)), (''offset'', JNum (int (snd (readU8 data off))))],
          off + 1)"
| "runSimple CodeI16 data off =
     Inr (signedOf 32767 65536 (fst (readU16 data off)), snd (readU16 data off))"
| "runSimple CodeI32 data off =
     Inr (signedOf 2147483647 4294967296 (fst (readU32 data off)), snd (readU32 data off))"
| "runSimple CodeBool data off = Inr (JBool (byteAt data off \<noteq> Some 0), off + 1)"
| "runSimple CallReadString data off = readString data off"
| "runSimple (AssertFalse msg) data off = Inl (Error msg)"
| "runSimple (UnitVariantCode names) data off =
     Inr (JStr (unitName names (byteAt data off)), off + 1)"
| "runSimple VecU8Code data off =
     (case readCompactU32 data off of
        Inl e \<Rightarrow> Inl e
      | Inr (len, start) \<Rightarrow>
          (let end' = start + Number len in Inr (JBytes (slice data start end'), end')))"
| "runSimple H160Code data off =
     (case assert (off + 20 \<le> length data) ''H160 read overflow'' of
        Inl e \<Rightarrow> Inl e
      | Inr _ \<Rightarrow> Inr (JStr (bytesToHex (slice data off (off + 20))), off + 20))"
| "runSimple _ data off = Inl TypeError"

function (sequential) run :: "code \<Rightarrow> byte list \<Rightarrow> nat \<Rightarrow> error + jsval \<times> nat"
  and runFields :: "(string \<times> code) list \<Rightarrow> byte list \<Rightarrow> nat \<Rightarrow> (string \<times> jsval) list
                     \<Rightarrow> error + (string \<times> jsval) list \<times> nat"
  and runElems :: "code list \<Rightarrow> byte list \<Rightarrow> nat \<Rightarrow> error + jsval list \<times> nat"
  and runLoop :: "code \<Rightarrow> nat \<Rightarrow> byte list \<Rightarrow> nat \<Rightarrow> error + jsval list \<times> nat"
  and runCases :: "(nat \<times> string \<times> body) list \<Rightarrow> nat option \<Rightarrow> byte list \<Rightarrow> nat
                     \<Rightarrow> error + jsval \<times> nat"
where
  "run c data off =
     (case c of
        CompositeCode ov fs \<Rightarrow>
          if ov = CurrentOffset then Inl ReferenceError
          else (case runFields fs data off [] of
                  Inl e \<Rightarrow> Inl e
                | Inr (obj, off') \<Rightarrow> Inr (JObj obj, off'))
      | SwitchCode ov cases \<Rightarrow>
          if ov = VariantOffset then Inl ReferenceError
          else runCases cases (byteAt data off) data (off + 1)
      | VecCode ov c' \<Rightarrow>
          if ov = VecOffset then Inl ReferenceError
          else (case readCompactU32 data off of
                  Inl e \<Rightarrow> Inl e
                | Inr (len, vecOffset) \<Rightarrow>
                    (case runLoop c' (Number len) data vecOffset of
                       Inl e \<Rightarrow> Inl e
                     | Inr (arr, off') \<Rightarrow> Inr (JArr arr, off')))
      | InlineArrayCode ov cs \<Rightarrow>
          if ov = ArrOffset then Inl ReferenceError
          else (case runElems cs data off of
                  Inl e \<Rightarrow> Inl e
                | Inr (arr, off') \<Rightarrow> Inr (JArr arr, off'))
      | LoopArrayCode ov n c' \<Rightarrow>
          if ov = ArrOffset then Inl ReferenceError
          else (case runLoop c' n data off of
                  Inl e \<Rightarrow> Inl e
                | Inr (arr, off') \<Rightarrow> Inr (JArr arr, off'))
      | _ \<Rightarrow> runSimple c data off)"
| "runFields [] data off obj = Inr (obj, off)"
| "runFields ((name, c) # fs) data off obj =
     (case run c data off of
        Inl e \<Rightarrow> Inl e
      | Inr (v, off') \<Rightarrow> runFields fs data off' (objSet name v obj))"
| "runElems [] data off = Inr ([], off)"
| "runElems (c # cs) data off =
     (case run c data off of
        Inl e \<Rightarrow> Inl e
      | Inr (v, off') \<Rightarrow>
          (case runElems cs data off' of
             Inl e \<Rightarrow> Inl e
           | Inr (vs, off'') \<Rightarrow> Inr (v # vs, off'')))"
| "runLoop c 0 data off = Inr ([], off)"
| "runLoop c (Suc n) data off =
     (case run c data off of
        Inl e \<Rightarrow> Inl e
      | Inr (v, off') \<Rightarrow>
          (case runLoop c n data off' of
             Inl e \<Rightarrow> Inl e
           | Inr (vs, off'') \<Rightarrow> Inr (v # vs, off'')))"
| "runCases [] discriminant data variantOffset =
     Inr (JObj [(''tag'', JStr ''UnknownVariant''), (''index'', numOf discriminant)], variantOffset)"
| "runCases ((idx, name, b) # cases) discriminant data variantOffset =
     (if discriminant = Some idx then
        (case b of
           UnitBody \<Rightarrow> Inr (JStr name, variantOffset)
         | StructBody fs \<Rightarrow>
             (case runFields fs data variantOffset [] of
                Inl e \<Rightarrow> Inl e
              | Inr (flds, off') \<Rightarrow>
                  Inr (JObj (foldl (\<lambda>obj (k, v). objSet k v obj) [(''tag'', JStr name)] flds), off'))
         | TupleBody cs \<Rightarrow>
             (case runElems cs data variantOffset of
                Inl e \<Rightarrow> Inl e
              | Inr (vs, off') \<Rightarrow> Inr (JObj [(''tag'', JStr name), (''value'', JArr vs)], off')))
      else runCases cases discriminant data variantOffset)"

  by pat_completeness auto

termination
  by (relation "inv_image (less_than <*lex*> less_than)
        (case_sum
          (case_sum (\<lambda>(c, _, _). (size c, 0))
                    (\<lambda>(fs, _, _, _). (size_list (size_prod (\<lambda>_. 0) size) fs, 0)))
          (case_sum (\<lambda>(cs, _, _). (size_list size cs, 0))
            (case_sum (\<lambda>(c, n, _, _). (size c, Suc n))
                      (\<lambda>(cases, _, _, _).
                         (size_list (size_prod (\<lambda>_. 0) (size_prod (\<lambda>_. 0) size)) cases, 0)))))")
     auto

declare run.simps [simp del]

section \<open>The decoder generator: generateEventDecoder and decodeEvent\<close>

text \<open>
  For an event the generator emits one block per argument, in declaration order, over the
  local variables \<open>offset\<close> (into \<open>data\<close>), \<open>topicIndex\<close> and \<open>result\<close>. An indexed
  argument's block reads \<open>topics[topicIndex++]\<close>; which reader it uses is fixed at
  generation time from the argument's type. Any other block decodes from \<open>data\<close> at
  \<open>offset\<close>.
\<close>

datatype topicKind = TopicU128 | TopicH160 | TopicU32 | TopicU16 | TopicRaw

datatype argCode = IndexedArg string topicKind | DataArg string code

definition topicKindOf :: "inkType option \<Rightarrow> topicKind" where
  "topicKindOf td =
     (case td of
        None \<Rightarrow> TopicRaw
      | Some t \<Rightarrow>
          if tdef t = Primitive ''u128'' then TopicU128
          else if isH160 t then TopicH160
          else if tdef t = Primitive ''u32'' then TopicU32
          else if tdef t = Primitive ''u16'' then TopicU16
          else TopicRaw)"

definition generateArg :: "nat \<Rightarrow> typeTable \<Rightarrow> eventArg \<Rightarrow> error + argCode" where
  "generateArg depth types arg =
     (let typeId = argType arg;
          lbl = (if argLabel arg \<noteq> [] then argLabel arg else ''field'')
      in if argIndexed arg then Inr (IndexedArg lbl (topicKindOf (map_of types typeId)))
         else case generateDecodeCall depth types typeId Offset of
                Inl e \<Rightarrow> Inl e
              | Inr c \<Rightarrow> Inr (DataArg lbl c))"

definition generateEventDecoder :: "nat \<Rightarrow> typeTable \<Rightarrow> eventArg list \<Rightarrow> error + argCode list" where
  "generateEventDecoder depth types args = mapResult (generateArg depth types) args"

record decodeState =
  st_offset :: nat
  st_topicIndex :: nat
  st_result :: "(string \<times> jsval) list"

definition topicValue :: "topicKind \<Rightarrow> string \<Rightarrow> byte list \<Rightarrow> error + jsval" where
  "topicValue kind t tb =
     (case kind of
        TopicU128 \<Rightarrow> (case readU128 tb 0 of Inl e \<Rightarrow> Inl e | Inr r \<Rightarrow> Inr (fst r))
      | TopicH160 \<Rightarrow> Inr (JStr (bytesToHex (slice tb (length tb - 20) (length tb))))
      | TopicU32 \<Rightarrow> Inr (fst (readU32 tb 0))
      | TopicU16 \<Rightarrow> Inr (fst (readU16 tb 0))
      | TopicRaw \<Rightarrow> Inr (JStr t))"

fun runArg :: "byte list \<Rightarrow> string list \<Rightarrow> argCode \<Rightarrow> decodeState \<Rightarrow> error + decodeState" where
  "runArg data topics (IndexedArg lbl kind) s =
     (if \<not> st_topicIndex s < length topics
      then Inl (Error (''Missing topic for indexed arg '' @ lbl))
      else
        (let t = topics ! st_topicIndex s; tb = hexToBytes t
         in if \<not> length tb \<ge> 32
            then Inl (Error (''Invalid topic length for indexed arg '' @ lbl))
            else case topicValue kind t tb of
                   Inl e \<Rightarrow> Inl e
                 | Inr v \<Rightarrow>
                     Inr (s\<lparr>st_topicIndex := st_topicIndex s + 1,
                            st_result := objSet lbl v (st_result s)\<rparr>)))"
| "runArg data topics (DataArg lbl c) s =
     (if \<not> st_offset s \<le> length data
      then Inl (Error (''Offset overflow for arg '' @ lbl))
      else case run c data (st_offset s) of
             Inl e \<Rightarrow> Inl e
           | Inr r \<Rightarrow> Inr (s\<lparr>st_offset := snd r, st_result := objSet lbl (fst r) (st_result s)\<rparr>))"

fun runArgs :: "byte list \<Rightarrow> string list \<Rightarrow> argCode list \<Rightarrow> decodeState \<Rightarrow> error + decodeState" where
  "runArgs data topics [] s = Inr s"
| "runArgs data topics (a # args) s =
     (case runArg data topics a s of
        Inl e \<Rightarrow> Inl e
      | Inr s' \<Rightarrow> runArgs data topics args s')"


definition toLowerCase :: "string \<Rightarrow> string" where
  \<comment> \<open>\<open>s.toLowerCase()\<close> on code units below 256\<close>
  "toLowerCase s =
     map (\<lambda>c. let n = (of_char c :: nat)
               in if (65 \<le> n \<and> n \<le> 90) \<or> (192 \<le> n \<and> n \<le> 222 \<and> n \<noteq> 215)
                  then char_of (n + 32) else c) s"

definition isLowerAZ :: "char \<Rightarrow> bool" where
  "isLowerAZ c = (let n = (of_char c :: nat) in 97 \<le> n \<and> n \<le> 122)"

definition isUpperAZ :: "char \<Rightarrow> bool" where
  "isUpperAZ c = (let n = (of_char c :: nat) in 65 \<le> n \<and> n \<le> 90)"

fun underscores :: "string \<Rightarrow> string" where
  \<comment> \<open>\<open>label.replace(/([a-z])([A-Z])/g, '$1_$2')\<close>\<close>
  "underscores (a # b # cs) =
     (if isLowerAZ a \<and> isUpperAZ b then a # CHR ''_'' # underscores (b # cs)
      else a # underscores (b # cs))"
| "underscores cs = cs"

type_synonym eventEntry = "string \<times> string \<times> argCode list"

definition generateEntry :: "nat \<Rightarrow> typeTable \<Rightarrow> eventMeta \<Rightarrow> error + eventEntry" where
  \<comment> \<open>the signature without \<open>0x\<close>, the snake-case event type and the decoder of one event\<close>
  "generateEntry depth types e =
     (let sig = strip0x (signature_topic e);
          lbl = (if evLabel e \<noteq> [] then evLabel e else ''UnknownEvent'');
          snake = toLowerCase (underscores lbl)
      in case generateEventDecoder depth types (evArgs e) of
           Inl x \<Rightarrow> Inl x
         | Inr args \<Rightarrow> Inr (sig, snake, args))"

definition generateEventsTs :: "nat \<Rightarrow> typeTable \<Rightarrow> eventMeta list \<Rightarrow> error + eventEntry list" where
  "generateEventsTs depth types events = mapResult (generateEntry depth types) events"


section \<open>The generated decoders of guess-the-number v0.1.0 (events.ts)\<close>

text \<open>
  Each function \<open>decodeX(dataHex, topics)\<close> of \<open>events.ts\<close> is given by its blocks, one per
  argument in the order of the file; \<open>runEventDecoder\<close> supplies the prologue (\<open>hexToBytes\<close>,
  \<open>offset = 0\<close>, \<open>topicIndex = 1\<close>) and the final \<open>return result\<close>.
\<close>

definition decodeNewGame :: "argCode list" where
  "decodeNewGame =
     [IndexedArg ''game_number'' TopicU128,
      IndexedArg ''player'' TopicH160,
      DataArg ''min_number'' CallReadU16,
      DataArg ''max_number'' CallReadU16]"











section \<open>The version registry (registry.ts)\<close>

text \<open>
  Block heights are natural numbers. An entry's \<open>to\<close> is \<open>None\<close> when the property is
  absent or \<open>null\<close>, \<open>addresses\<close> and \<open>from\<close> are \<open>None\<close> when absent. The generated file
  holds the registry as a constant and a switch from the version tag to the decoder
  module; both are parameters here, and \<open>resolveDecoder\<close> returns the tag of the module.
\<close>

record versionEntry =
  veVersion :: string
  veAddresses :: "string list option"
  veCodeHash :: "string option"
  veFrom :: "nat option"
  veTo :: "nat option"

definition addressMatch :: "string \<Rightarrow> versionEntry \<Rightarrow> bool" where
  "addressMatch address e =
     (case veAddresses e of
        Some as \<Rightarrow> if length as > 0 then address \<in> set as else True
      | None \<Rightarrow> True)"

definition rangeMatch :: "nat \<Rightarrow> versionEntry \<Rightarrow> bool" where
  \<comment> \<open>\<open>!e.from || blockHeight >= e.from\<close> and \<open>!e.to || blockHeight < e.to\<close>: the number 0
      is falsy as well\<close>
  "rangeMatch blockHeight e =
     (let fromMatch = (case veFrom e of None \<Rightarrow> True | Some f \<Rightarrow> f = 0 \<or> blockHeight \<ge> f);
          toMatch = (case veTo e of None \<Rightarrow> True | Some t \<Rightarrow> t = 0 \<or> blockHeight < t)
      in fromMatch \<and> toMatch)"

definition fromOrZero :: "versionEntry \<Rightarrow> nat" where
  \<comment> \<open>\<open>a.from !== undefined ? a.from : 0\<close>\<close>
  "fromOrZero e = (case veFrom e of None \<Rightarrow> 0 | Some f \<Rightarrow> f)"

definition compareFrom :: "versionEntry \<Rightarrow> versionEntry \<Rightarrow> int" where
  \<comment> \<open>the comparator \<open>bFrom - aFrom\<close>\<close>
  "compareFrom a b = int (fromOrZero b) - int (fromOrZero a)"

fun insertSorted :: "('a \<Rightarrow> 'a \<Rightarrow> int) \<Rightarrow> 'a \<Rightarrow> 'a list \<Rightarrow> 'a list" where
  "insertSorted cmp x [] = [x]"
| "insertSorted cmp x (y # ys) = (if cmp x y \<le> 0 then x # y # ys else y # insertSorted cmp x ys)"

definition sortWith :: "('a \<Rightarrow> 'a \<Rightarrow> int) \<Rightarrow> 'a list \<Rightarrow> 'a list" where
  \<comment> \<open>\<open>Array.prototype.sort\<close> with a comparator: a stable sort\<close>
  "sortWith cmp xs = foldr (insertSorted cmp) xs []"

definition resolveDecoder :: "versionEntry list \<Rightarrow> string list \<Rightarrow> string \<Rightarrow> nat \<Rightarrow> error + string" where
  "resolveDecoder registry cases address blockHeight =
     (let addressMatches = filter (addressMatch address) registry;
          rangeMatches = filter (rangeMatch blockHeight) addressMatches;
          candidates = (if length rangeMatches > 0 then rangeMatches else addressMatches)
      in if length candidates = 0
         then Inl (Error (''No decoder version found for address '' @ address))
         else case sortWith compareFrom candidates of
                [] \<Rightarrow> Inl TypeError
              | entry # _ \<Rightarrow>
                  if veVersion entry \<in> set cases then Inr (veVersion entry)
                  else Inl (Error (''Version not found: '' @ veVersion entry)))"

definition generatedResolveDecoder :: "versionEntry list \<Rightarrow> string \<Rightarrow> nat \<Rightarrow> error + string" where
  \<comment> \<open>\<open>generateRegistryTs\<close> and \<open>generateMergedRegistryTs\<close> emit one \<open>case\<close> per registry entry\<close>
  "generatedResolveDecoder registry address blockHeight =
     resolveDecoder registry (map veVersion registry) address blockHeight"

definition registry_ts :: "versionEntry list" where
  \<comment> \<open>the registry of guess-the-number as generated\<close>
  "registry_ts =
     [\<lparr>veVersion = ''v0.1.0'',
       veAddresses = Some [''0xe75cbd47620dbb2053cf2a98d06840f06baaf141''],
       veCodeHash = None, veFrom = Some 1934744, veTo = None\<rparr>]"

section \<open>Metadata validation (gen-ink-decoder.js): validateMetadata\<close>

text \<open>The parsed metadata document is a \<open>jsval\<close> as \<open>JSON.parse\<close> returns it.\<close>

definition truthy :: "jsval \<Rightarrow> bool" where
  "truthy v =
     (case v of
        JUndefined \<Rightarrow> False
      | JNull \<Rightarrow> False
      | JBool b \<Rightarrow> b
      | JNum n \<Rightarrow> n \<noteq> 0
      | JBig n \<Rightarrow> n \<noteq> 0
      | JStr s \<Rightarrow> s \<noteq> []
      | _ \<Rightarrow> True)"

definition getProp :: "jsval \<Rightarrow> string \<Rightarrow> jsval" where
  \<comment> \<open>\<open>v.k\<close> for a value that is neither \<open>null\<close> nor \<open>undefined\<close>, and a key that no
      prototype defines\<close>
  "getProp v k = (case v of JObj kvs \<Rightarrow> (case map_of kvs k of Some x \<Rightarrow> x | None \<Rightarrow> JUndefined)
                       | _ \<Rightarrow> JUndefined)"

definition isArray :: "jsval \<Rightarrow> bool" where
  "isArray v = (case v of JArr _ \<Rightarrow> True | _ \<Rightarrow> False)"

definition nullish :: "jsval \<Rightarrow> bool" where
  "nullish v = (v = JNull \<or> v = JUndefined)"

fun someSignature :: "jsval list \<Rightarrow> error + bool" where
  \<comment> \<open>\<open>events.some(function(e) { return e.signature_topic })\<close>; reading a property of
      \<open>null\<close> throws a TypeError\<close>
  "someSignature [] = Inr False"
| "someSignature (e # es) =
     (if nullish e then Inl TypeError
      else if truthy (getProp e ''signature_topic'') then Inr True
      else someSignature es)"

definition validateMetadata :: "jsval \<Rightarrow> error + unit" where
  \<comment> \<open>the message of the version error is cut after \<open>version\<close>: the source appends the
      version found and \<open>, expected 6\<close>\<close>
  "validateMetadata metadata =
     (if \<not> truthy metadata then Inl (Error ''Invalid metadata: empty or null'')
      else if getProp metadata ''version'' \<noteq> JNum 6 then Inl (Error ''Unsupported Ink! version'')
      else if \<not> truthy (getProp metadata ''spec'')
              \<or> \<not> truthy (getProp (getProp metadata ''spec'') ''events'')
              \<or> \<not> isArray (getProp (getProp metadata ''spec'') ''events'')
           then Inl (Error ''Missing or invalid spec.events'')
      else if \<not> truthy (getProp metadata ''types'') \<or> \<not> isArray (getProp metadata ''types'')
           then Inl (Error ''Missing or invalid types array'')
      else case getProp (getProp metadata ''spec'') ''events'' of
             JArr events \<Rightarrow>
               (case someSignature events of
                  Inl e \<Rightarrow> Inl e
                | Inr hasSig \<Rightarrow>
                    if \<not> hasSig then Inl (Error ''No events with signature_topic found'')
                    else Inr ())
           | _ \<Rightarrow> Inl TypeError)"

section \<open>Metadata loading of the interpreting decoder (subsquid-inkv6-decoder.ts)\<close>

fun setEvents :: "jsval list \<Rightarrow> (string \<times> jsval) list \<Rightarrow> (string \<times> jsval) list option" where
  \<comment> \<open>\<open>metadata.events.forEach\<close>: the key is \<open>signature_topic\<close> without \<open>0x\<close>; \<open>None\<close> when
      an exception is thrown (\<open>event\<close> is \<open>null\<close>, or \<open>signature_topic\<close> is not a string)\<close>
  "setEvents [] eventCache = Some eventCache"
| "setEvents (event # events) eventCache =
     (if nullish event then None
      else case getProp event ''signature_topic'' of
             JStr s \<Rightarrow> setEvents events (objSet (strip0x s) event eventCache)
           | _ \<Rightarrow> None)"

fun setTypes :: "jsval list \<Rightarrow> (jsval \<times> jsval) list \<Rightarrow> (jsval \<times> jsval) list option" where
  \<comment> \<open>\<open>metadata.types.forEach(type => this.typeCache.set(type.id, type))\<close>\<close>
  "setTypes [] typeCache = Some typeCache"
| "setTypes (t # ts) typeCache =
     (if nullish t then None else setTypes ts (objSet (getProp t ''id'') t typeCache))"

definition loadMetadata :: "jsval \<Rightarrow> error + (string \<times> jsval) list \<times> (jsval \<times> jsval) list" where
  \<comment> \<open>from the parsed file to the two caches; every exception inside is caught and
      rethrown as \<open>Failed to load metadata\<close>\<close>
  "loadMetadata rawMetadata =
     (let failed = Inl (Error ''Failed to load metadata'')
      in if nullish rawMetadata then failed
         else
           (let spec = getProp rawMetadata ''spec'';
                ev = (if nullish spec then JUndefined else getProp spec ''events'');
                events = (if truthy ev then ev else JArr []);
                ty = getProp rawMetadata ''types'';
                types = (if truthy ty then ty else JArr [])
            in case events of
                 JArr es \<Rightarrow>
                   (case setEvents es [] of
                      None \<Rightarrow> failed
                    | Some eventCache \<Rightarrow>
                        (case types of
                           JArr ts \<Rightarrow>
                             (case setTypes ts [] of
                                None \<Rightarrow> failed
                              | Some typeCache \<Rightarrow> Inr (eventCache, typeCache))
                         | _ \<Rightarrow> failed))
               | _ \<Rightarrow> failed))"

section \<open>The interpreting decoder (subsquid-inkv6-decoder.ts): SubsquidInkDecoder\<close>

text \<open>
  The class reads the caches through the interfaces \<open>InkEventMetadata\<close> and
  \<open>InkTypeDefinition\<close>, which are the records \<open>eventMeta\<close> and \<open>inkType\<close>; a cache lookup
  finds the last entry stored under a key. An offset is an integer here: a string length is
  read as a signed 32-bit value and can move the offset backwards. \<open>decodeValue\<close> follows
  the type ids to a depth that the metadata decides; the first argument bounds the depth of
  the call stack, and exceeding it is the \<open>RangeError\<close> of a stack overflow. Methods
  whose names clash with support.ts carry the suffix \<open>_ink\<close>.
\<close>

definition byteAtI :: "byte list \<Rightarrow> int \<Rightarrow> nat option" where
  "byteAtI bytes i = (if 0 \<le> i \<and> i < int (length bytes) then Some (unat (bytes ! nat i)) else None)"

definition jsSlice :: "byte list \<Rightarrow> int \<Rightarrow> int \<Rightarrow> byte list" where
  \<comment> \<open>\<open>bytes.slice(start, end)\<close>; a negative bound counts from the end\<close>
  "jsSlice bytes start end' =
     (let len = int (length bytes);
          k = (if start < 0 then max (len + start) 0 else min start len);
          final = (if end' < 0 then max (len + end') 0 else min end' len)
      in take (nat (final - k)) (drop (nat k) bytes))"

definition readU16_ink :: "byte list \<Rightarrow> int \<Rightarrow> int" where
  "readU16_ink bytes offset =
     sint (toInt32 (byteAtI bytes offset) OR push_bit 8 (toInt32 (byteAtI bytes (offset + 1))))"

definition readU32_ink :: "byte list \<Rightarrow> int \<Rightarrow> int" where
  \<comment> \<open>no \<open>>>> 0\<close> here: the result is the signed 32-bit value\<close>
  "readU32_ink bytes offset =
     sint (toInt32 (byteAtI bytes offset) OR push_bit 8 (toInt32 (byteAtI bytes (offset + 1)))
           OR push_bit 16 (toInt32 (byteAtI bytes (offset + 2)))
           OR push_bit 24 (toInt32 (byteAtI bytes (offset + 3))))"

fun bigLoopI :: "byte list \<Rightarrow> int \<Rightarrow> nat list \<Rightarrow> int \<Rightarrow> error + int" where
  "bigLoopI bytes offset [] v = Inr v"
| "bigLoopI bytes offset (i # is) v =
     (case byteAtI bytes (offset + int i) of
        None \<Rightarrow> Inl TypeError
      | Some b \<Rightarrow> bigLoopI bytes offset is (v OR push_bit (i * 8) (int b)))"

definition readU64_ink :: "byte list \<Rightarrow> int \<Rightarrow> error + int" where
  "readU64_ink bytes offset = bigLoopI bytes offset [0..<8] 0"

definition readU128_ink :: "byte list \<Rightarrow> int \<Rightarrow> error + int" where
  "readU128_ink bytes offset = bigLoopI bytes offset [0..<16] 0"

definition decodeString :: "byte list \<Rightarrow> int \<Rightarrow> jsval \<times> int" where
  "decodeString bytes offset =
     (let len = readU32_ink bytes offset
      in (JUtf8 (jsSlice bytes (offset + 4) (offset + 4 + len)), offset + 4 + len))"

definition decodePrimitive :: "byte list \<Rightarrow> int \<Rightarrow> string \<Rightarrow> error + jsval \<times> int" where
  "decodePrimitive bytes offset primitive =
     (if primitive = ''u8'' then Inr (numOf (byteAtI bytes offset), offset + 1)
      else if primitive = ''u16'' then Inr (JNum (readU16_ink bytes offset), offset + 2)
      else if primitive = ''u32'' then Inr (JNum (readU32_ink bytes offset), offset + 4)
      else if primitive = ''u64'' then
        (case readU64_ink bytes offset of Inl e \<Rightarrow> Inl e | Inr v \<Rightarrow> Inr (JBig v, offset + 8))
      else if primitive = ''u128'' then
        (case readU128_ink bytes offset of Inl e \<Rightarrow> Inl e | Inr v \<Rightarrow> Inr (JBig v, offset + 16))
      else if primitive = ''i8'' then
        Inr (case byteAtI bytes offset of
               None \<Rightarrow> JUndefined
             | Some v \<Rightarrow> JNum (if v > 127 then int v - 256 else int v), offset + 1)
      else if primitive = ''i16'' then
        (let v = readU16_ink bytes offset
         in Inr (JNum (if v > 32767 then v - 65536 else v), offset + 2))
      else if primitive = ''i32'' then
        (let v = readU32_ink bytes offset
         in Inr (JNum (if v > 2147483647 then v - 4294967296 else v), offset + 4))
      else if primitive = ''i64'' then
        (case readU64_ink bytes offset of
           Inl e \<Rightarrow> Inl e
         | Inr v \<Rightarrow>
             Inr (JBig (if v > 9223372036854775807 then v - 18446744073709551616 else v), offset + 8))
      else if primitive = ''i128'' then
        (case readU128_ink bytes offset of
           Inl e \<Rightarrow> Inl e
         | Inr v \<Rightarrow>
             Inr (JBig (if v > 170141183460469231731687303715884105727
                        then v - 340282366920938463463374607431768211456 else v), offset + 16))
      else if primitive = ''bool'' then Inr (JBool (byteAtI bytes offset \<noteq> Some 0), offset + 1)
      else if primitive = ''str'' then Inr (decodeString bytes offset)
      else Inl (Error (''Unsupported primitive type: '' @ primitive)))"

definition decodeVariant :: "byte list \<Rightarrow> int \<Rightarrow> variantDef list \<Rightarrow> error + jsval \<times> int" where
  \<comment> \<open>\<open>variant.variants[variantIndex]\<close> is the entry at that position of the list\<close>
  "decodeVariant bytes offset variants =
     (case byteAtI bytes offset of
        None \<Rightarrow> Inl (Error ''Invalid variant index: undefined'')
      | Some idx \<Rightarrow>
          if idx < length variants
          then Inr (JStr (variantName (variants ! idx)), offset + 1)
          else Inl (Error (''Invalid variant index: '' @ toString10 idx)))"

definition typeCacheGet :: "typeTable \<Rightarrow> nat \<Rightarrow> inkType option" where
  "typeCacheGet types typeId = map_of (rev types) typeId"

definition fieldKey :: "field \<Rightarrow> string" where
  \<comment> \<open>\<open>field.name || 'field'\<close>\<close>
  "fieldKey f = (case fieldName f of Some n \<Rightarrow> if n \<noteq> [] then n else ''field'' | None \<Rightarrow> ''field'')"

fun decodeSeq ::
  "('a \<Rightarrow> int \<Rightarrow> error + jsval \<times> int) \<Rightarrow> 'a list \<Rightarrow> int \<Rightarrow> error + ('a \<times> jsval) list \<times> int" where
  \<comment> \<open>decode one value per list entry, each at the offset the one before ended at\<close>
  "decodeSeq f [] offset = Inr ([], offset)"
| "decodeSeq f (x # xs) offset =
     (case f x offset of
        Inl e \<Rightarrow> Inl e
      | Inr r \<Rightarrow>
          (case decodeSeq f xs (snd r) of
             Inl e \<Rightarrow> Inl e
           | Inr rs \<Rightarrow> Inr ((x, fst r) # fst rs, snd rs)))"

definition known :: "typeTable \<Rightarrow> ('a \<Rightarrow> nat) \<Rightarrow> 'a list \<Rightarrow> ('a \<times> inkType) list" where
  \<comment> \<open>the entries whose type id is in the cache, with their type; the loops skip the
      others with \<open>continue\<close>\<close>
  "known types typeIdOf xs =
     List.map_filter
       (\<lambda>x. case typeCacheGet types (typeIdOf x) of None \<Rightarrow> None | Some td \<Rightarrow> Some (x, td)) xs"

fun decodeValue :: "nat \<Rightarrow> typeTable \<Rightarrow> byte list \<Rightarrow> int \<Rightarrow> inkType \<Rightarrow> error + jsval \<times> int" where
  "decodeValue 0 types bytes offset typeDef = Inl RangeError"
| "decodeValue (Suc depth) types bytes offset typeDef =
     (case tdef typeDef of
        Primitive p \<Rightarrow>
          if p \<noteq> [] then decodePrimitive bytes offset p
          else Inl (Error ''Unsupported type definition'')
      | Composite flds \<Rightarrow>
          \<comment> \<open>\<open>isAddressType\<close> asks for a field whose \<open>type\<close> is the string \<open>u8\<close>; a type id
              is a number, so the composite is returned as decoded\<close>
          (case decodeSeq (\<lambda>(f, td) off. decodeValue depth types bytes off td)
                  (known types fieldType flds) offset of
             Inl e \<Rightarrow> Inl e
           | Inr rs \<Rightarrow>
               Inr (JObj (foldl (\<lambda>obj ((f, td), v). objSet (fieldKey f) v obj) [] (fst rs)), snd rs))
      | Variant variants \<Rightarrow> decodeVariant bytes offset variants
      | Array len elementType \<Rightarrow>
          (case typeCacheGet types elementType of
             None \<Rightarrow> Inr (JArr [], offset)
           | Some td \<Rightarrow>
               (case decodeSeq (\<lambda>i off. decodeValue depth types bytes off td) [0..<len] offset of
                  Inl e \<Rightarrow> Inl e
                | Inr rs \<Rightarrow> Inr (JArr (map snd (fst rs)), snd rs)))
      | Tuple typeIds \<Rightarrow>
          (case decodeSeq (\<lambda>(i, td) off. decodeValue depth types bytes off td)
                  (known types id typeIds) offset of
             Inl e \<Rightarrow> Inl e
           | Inr rs \<Rightarrow> Inr (JArr (map snd (fst rs)), snd rs))
      | _ \<Rightarrow> Inl (Error ''Unsupported type definition''))"

fun indexedLoop ::
  "nat \<Rightarrow> typeTable \<Rightarrow> string list \<Rightarrow> eventArg list \<Rightarrow> nat \<Rightarrow> (string \<times> jsval) list
     \<Rightarrow> error + (string \<times> jsval) list" where
  \<comment> \<open>first loop of \<open>decodeEventData\<close>: the indexed arguments, from the topics\<close>
  "indexedLoop depth types topics [] topicIndex result = Inr result"
| "indexedLoop depth types topics (arg # args) topicIndex result =
     (if argIndexed arg \<and> topicIndex < length topics then
        (case typeCacheGet types (argType arg) of
           None \<Rightarrow> indexedLoop depth types topics args (topicIndex + 1) result
         | Some typeDef \<Rightarrow>
             (case decodeValue depth types (hexToBytes (topics ! topicIndex)) 0 typeDef of
                Inl e \<Rightarrow> Inl e
              | Inr r \<Rightarrow>
                  indexedLoop depth types topics args (topicIndex + 1)
                    (objSet (argLabel arg) (fst r) result)))
      else indexedLoop depth types topics args topicIndex result)"

fun skipLoop :: "nat \<Rightarrow> typeTable \<Rightarrow> byte list \<Rightarrow> eventArg list \<Rightarrow> int \<Rightarrow> error + int" where
  \<comment> \<open>second loop: \<open>dataOffset\<close> is moved past every indexed argument, decoded from the
      event data\<close>
  "skipLoop depth types eventBytes [] dataOffset = Inr dataOffset"
| "skipLoop depth types eventBytes (arg # args) dataOffset =
     (if argIndexed arg then
        (case typeCacheGet types (argType arg) of
           None \<Rightarrow> skipLoop depth types eventBytes args dataOffset
         | Some typeDef \<Rightarrow>
             (case decodeValue depth types eventBytes dataOffset typeDef of
                Inl e \<Rightarrow> Inl e
              | Inr r \<Rightarrow> skipLoop depth types eventBytes args (snd r)))
      else skipLoop depth types eventBytes args dataOffset)"

fun dataLoop ::
  "nat \<Rightarrow> typeTable \<Rightarrow> byte list \<Rightarrow> eventArg list \<Rightarrow> int \<Rightarrow> (string \<times> jsval) list
     \<Rightarrow> error + (string \<times> jsval) list" where
  \<comment> \<open>third loop: the other arguments, from the event data at \<open>dataOffset\<close>\<close>
  "dataLoop depth types eventBytes [] dataOffset result = Inr result"
| "dataLoop depth types eventBytes (arg # args) dataOffset result =
     (if argIndexed arg then dataLoop depth types eventBytes args dataOffset result
      else case typeCacheGet types (argType arg) of
             None \<Rightarrow> dataLoop depth types eventBytes args dataOffset result
           | Some typeDef \<Rightarrow>
               (case decodeValue depth types eventBytes dataOffset typeDef of
                  Inl e \<Rightarrow> Inl e
                | Inr r \<Rightarrow>
                    dataLoop depth types eventBytes args (snd r)
                      (objSet (argLabel arg) (fst r) result)))"

definition decodeEventData ::
  "nat \<Rightarrow> typeTable \<Rightarrow> byte list \<Rightarrow> eventMeta \<Rightarrow> string list \<Rightarrow> error + (string \<times> jsval) list" where
  "decodeEventData depth types eventBytes eventMetadata topics =
     (case indexedLoop depth types topics (evArgs eventMetadata) 1 [] of
        Inl e \<Rightarrow> Inl e
      | Inr result \<Rightarrow>
          (case skipLoop depth types eventBytes (evArgs eventMetadata) 0 of
             Inl e \<Rightarrow> Inl e
           | Inr dataOffset \<Rightarrow>
               dataLoop depth types eventBytes (evArgs eventMetadata) dataOffset result))"



section \<open>Vocabulary of the specification\<close>

definition byteOrZero :: "byte list \<Rightarrow> nat \<Rightarrow> nat" where
  \<comment> \<open>the byte at a position of the buffer; 0 past its end\<close>
  "byteOrZero buf i = (case byteAt buf i of None \<Rightarrow> 0 | Some b \<Rightarrow> b)"

fun littleEndian :: "nat list \<Rightarrow> nat" where
  \<comment> \<open>the number a sequence of bytes denotes, least significant byte first\<close>
  "littleEndian [] = 0"
| "littleEndian (b # bs) = b + 256 * littleEndian bs"

fun isIndexedArg :: "argCode \<Rightarrow> bool" where
  \<comment> \<open>the block of an indexed argument\<close>
  "isIndexedArg (IndexedArg lbl kind) = True"
| "isIndexedArg (DataArg lbl c) = False"


definition wildcardOrContains :: "string \<Rightarrow> versionEntry \<Rightarrow> bool" where
  \<comment> \<open>the entry's address list is absent or empty (wildcard), or contains the address\<close>
  "wildcardOrContains address e =
     (case veAddresses e of None \<Rightarrow> True | Some as \<Rightarrow> as = [] \<or> address \<in> set as)"

definition rangeContains :: "nat \<Rightarrow> versionEntry \<Rightarrow> bool" where
  \<comment> \<open>the half-open range \<open>[from, to)\<close> contains the block height\<close>
  "rangeContains blockHeight e =
     ((case veFrom e of None \<Rightarrow> True | Some f \<Rightarrow> blockHeight \<ge> f)
      \<and> (case veTo e of None \<Rightarrow> True | Some t \<Rightarrow> blockHeight < t))"

definition candidatesOf :: "versionEntry list \<Rightarrow> string \<Rightarrow> nat \<Rightarrow> versionEntry list" where
  \<comment> \<open>the entries in range among those matching the address, or all those matching the
      address when none is in range\<close>
  "candidatesOf registry address blockHeight =
     (let byAddress = filter (wildcardOrContains address) registry;
          inRange = filter (rangeContains blockHeight) byAddress
      in if inRange \<noteq> [] then inRange else byAddress)"

definition headIsLatest :: "versionEntry list \<Rightarrow> bool" where
  \<comment> \<open>no entry of the list starts later than its first entry\<close>
  "headIsLatest l =
     (case l of [] \<Rightarrow> True | e # r \<Rightarrow> (\<forall>e' \<in> set r. fromOrZero e' \<le> fromOrZero e))"

definition docField :: "jsval \<Rightarrow> string \<Rightarrow> jsval option" where
  \<comment> \<open>a field of a JSON object; \<open>None\<close> when the value is no object or has no such field\<close>
  "docField doc k = (case doc of JObj kvs \<Rightarrow> map_of kvs k | _ \<Rightarrow> None)"

definition eventsList :: "jsval \<Rightarrow> jsval list option" where
  \<comment> \<open>\<open>spec.events\<close> when it is present and a list\<close>
  "eventsList doc =
     (case docField doc ''spec'' of
        None \<Rightarrow> None
      | Some spec \<Rightarrow> (case docField spec ''events'' of Some (JArr es) \<Rightarrow> Some es | _ \<Rightarrow> None))"

definition typesList :: "jsval \<Rightarrow> jsval list option" where
  \<comment> \<open>\<open>types\<close> when it is present and a list\<close>
  "typesList doc = (case docField doc ''types'' of Some (JArr ts) \<Rightarrow> Some ts | _ \<Rightarrow> None)"

definition carriesSignature :: "jsval \<Rightarrow> bool" where
  \<comment> \<open>the event has a \<open>signature_topic\<close> that is not empty\<close>
  "carriesSignature e = (case docField e ''signature_topic'' of Some v \<Rightarrow> truthy v | None \<Rightarrow> False)"

definition invalidMetadata :: "jsval \<Rightarrow> bool" where
  \<comment> \<open>the four conditions of the specification\<close>
  "invalidMetadata doc =
     (docField doc ''version'' \<noteq> Some (JNum 6)
      \<or> eventsList doc = None
      \<or> typesList doc = None
      \<or> (case eventsList doc of None \<Rightarrow> True | Some es \<Rightarrow> \<not> list_ex carriesSignature es))"

definition noNullEvent :: "jsval \<Rightarrow> bool" where
  \<comment> \<open>no entry of the event list is \<open>null\<close>\<close>
  "noNullEvent doc = (case eventsList doc of None \<Rightarrow> True | Some es \<Rightarrow> \<not> list_ex nullish es)"



section \<open>Properties\<close>

declare toString16.simps [simp del]

subsection \<open>Hex helpers\<close>

lemma hexDigit_props:
  assumes "n < 16"
  shows "hexDigitVal (hexDigit n) = Some n" "\<not> isWhiteSpace (hexDigit n)"
    "hexDigit n \<noteq> CHR ''+''" "hexDigit n \<noteq> CHR ''-''"
    "hexDigit n \<noteq> CHR ''x''" "hexDigit n \<noteq> CHR ''X''"
    "isLowerHex (hexDigit n)"
proof -
  from assms have "n \<in> {0,1,2,3,4,5,6,7,8,9,10,11,12,13,14,15}" by (simp; arith)
  then show "hexDigitVal (hexDigit n) = Some n" "\<not> isWhiteSpace (hexDigit n)"
    "hexDigit n \<noteq> CHR ''+''" "hexDigit n \<noteq> CHR ''-''"
    "hexDigit n \<noteq> CHR ''x''" "hexDigit n \<noteq> CHR ''X''"
    "isLowerHex (hexDigit n)"
    by (auto simp: hexDigit_def hexDigitVal_def isWhiteSpace_def isLowerHex_def)
qed

lemma parseInt16_pair:
  assumes "h < 16" "l < 16"
  shows "parseInt16 [hexDigit h, hexDigit l] = Some (int (16 * h + l))"
  using hexDigit_props[OF assms(1)] hexDigit_props[OF assms(2)]
  by (simp add: parseInt16_def isHexDigit_def Let_def)

lemma byte_nibbles: "unat (b::byte) div 16 < 16" "unat b mod 16 < 16"
proof -
  have "unat b < 256" using unsigned_less[of b] by simp
  then show "unat b div 16 < 16" by simp
  show "unat b mod 16 < 16" by simp
qed

lemma hex2:
  "padStart2 (toString16 (unat (b::byte))) = [hexDigit (unat b div 16), hexDigit (unat b mod 16)]"
proof -
  have "toString16 (unat b div 16) = [hexDigit (unat b div 16)]"
    using byte_nibbles(1)[of b] by (simp add: toString16.simps)
  then show ?thesis
    by (cases "unat b < 16") (simp_all add: padStart2_def hexDigit_def toString16.simps[of "unat b"])
qed

lemma bytesToHex_acc:
  "foldl (\<lambda>hex b. hex @ padStart2 (toString16 (unat (b::byte)))) acc bs
     = acc @ concat (map (\<lambda>b. padStart2 (toString16 (unat b))) bs)"
  by (induction bs arbitrary: acc) simp_all

lemma bytesToHex_eq:
  "bytesToHex bs = ''0x'' @ concat (map (\<lambda>b. [hexDigit (unat b div 16), hexDigit (unat b mod 16)]) bs)"
  unfolding bytesToHex_def bytesToHex_acc by (simp add: hex2)

lemma toUint8_pair:
  "toUint8 (parseInt16 [hexDigit (unat (b::byte) div 16), hexDigit (unat b mod 16)]) = b"
proof -
  have "parseInt16 [hexDigit (unat b div 16), hexDigit (unat b mod 16)]
          = Some (int (16 * (unat b div 16) + unat b mod 16))"
    using byte_nibbles[of b] by (intro parseInt16_pair) simp_all
  then show ?thesis by (simp add: toUint8_def)
qed

lemma hexPairs_hex:
  "hexPairs (concat (map (\<lambda>b. [hexDigit (unat b div 16), hexDigit (unat b mod 16)]) bs)) = bs"
  by (induction bs) (simp_all add: toUint8_pair)

lemma hex_len:
  "length (concat (map (\<lambda>b. [hexDigit (unat b div 16), hexDigit (unat b mod 16)]) (bs::byte list)))
     = 2 * length bs"
  by (induction bs) simp_all

lemma hex_lower:
  "list_all isLowerHex
     (concat (map (\<lambda>b. [hexDigit (unat b div 16), hexDigit (unat b mod 16)]) (bs::byte list)))"
proof (induction bs)
  case Nil
  show ?case by simp
next
  case (Cons b bs)
  from hexDigit_props(7)[OF byte_nibbles(1)[of b]] hexDigit_props(7)[OF byte_nibbles(2)[of b]] Cons
  show ?case by simp
qed

lemma hexToBytes_bytesToHex: "hexToBytes (bytesToHex b) = b"
  by (simp add: bytesToHex_eq hexToBytes_def strip0x_def hexPairs_hex)

text \<open>
  C10. For every byte array \<open>b\<close>, \<open>hexToBytes (bytesToHex b)\<close> is \<open>b\<close> again, and
  \<open>bytesToHex b\<close> is \<open>0x\<close> followed by lowercase hex digits, \<open>2 * |b| + 2\<close> characters
  in all.
\<close>

theorem hex_roundtrip:
  "hexToBytes (bytesToHex b) = b
   \<and> take 2 (bytesToHex b) = ''0x''
   \<and> list_all isLowerHex (drop 2 (bytesToHex b))
   \<and> length (bytesToHex b) = 2 * length b + 2"
  using hex_lower[of b] by (simp add: hexToBytes_bytesToHex) (simp add: bytesToHex_eq hex_len)

theorem hex_roundtrip_witness:
  "hexToBytes (bytesToHex [0xe7, 0x5c, 0x00]) = [0xe7, 0x5c, 0x00]
   \<and> bytesToHex [0xe7, 0x5c, 0x00] = ''0xe75c00''
   \<and> length (bytesToHex [0xe7, 0x5c, 0x00 :: byte]) = 8"
  using hex_roundtrip[of "[0xe7, 0x5c, 0x00]"]
  by (simp add: bytesToHex_def padStart2_def toString16.simps hexDigit_def)

subsection \<open>Compact integers\<close>

lemma or_push_bit_word:
  fixes w :: "32 word"
  assumes "n < 2 ^ k"
  shows "of_nat n OR push_bit k w = of_nat n + push_bit k w"
proof (rule disjunctive_add [symmetric])
  fix m
  show "\<not> bit (of_nat n :: 32 word) m \<or> \<not> bit (push_bit k w) m"
  proof (cases "m < k")
    case True
    then show ?thesis by (simp add: bit_push_bit_iff)
  next
    case False
    then have "n < 2 ^ m" using assms
      by (meson leI less_le_trans one_le_numeral power_increasing)
    then have "\<not> bit n m" by (simp add: bit_iff_odd)
    then show ?thesis by (simp add: bit_of_nat_iff)
  qed
qed

lemma word_le2: "x < 256 \<Longrightarrow> y < 256 \<Longrightarrow>
  (of_nat x :: 32 word) OR push_bit 8 (of_nat y) = of_nat (x + 256 * y)"
  using or_push_bit_word[of x 8 "of_nat y"] by (simp add: push_bit_eq_mult)

lemma word_le4: "a < 256 \<Longrightarrow> b < 256 \<Longrightarrow> c < 256 \<Longrightarrow> d < 256 \<Longrightarrow>
  (of_nat a :: 32 word) OR push_bit 8 (of_nat b) OR push_bit 16 (of_nat c) OR push_bit 24 (of_nat d)
    = of_nat (a + 256 * b + 65536 * c + 16777216 * d)"
proof -
  assume h: "a < 256" "b < 256" "c < 256" "d < 256"
  have 1: "(of_nat a :: 32 word) OR push_bit 8 (of_nat b) = of_nat (a + 256 * b)" using h by (simp add: word_le2)
  have 2: "(of_nat (a + 256 * b) :: 32 word) OR push_bit 16 (of_nat c) = of_nat (a + 256 * b + 65536 * c)"
    using or_push_bit_word[of "a + 256 * b" 16 "of_nat c"] h by (simp add: push_bit_eq_mult)
  have 3: "(of_nat (a + 256 * b + 65536 * c) :: 32 word) OR push_bit 24 (of_nat d) = of_nat (a + 256 * b + 65536 * c + 16777216 * d)"
    using or_push_bit_word[of "a + 256 * b + 65536 * c" 24 "of_nat d"] h by (simp add: push_bit_eq_mult)
  show ?thesis by (simp only: or.assoc[symmetric] 1 2 3)
qed

lemma unat_small: "n < 2 ^ 32 \<Longrightarrow> unat (of_nat n :: 32 word) = n"
  by (simp add: unat_of_nat)

lemma uint_small: "n < 2 ^ 32 \<Longrightarrow> uint (of_nat n :: 32 word) = int n"
  using unat_small[of n] by (simp add: uint_nat del: of_nat_unat)

lemma sint_small: "n < 2 ^ 31 \<Longrightarrow> sint (of_nat n :: 32 word) = int n"
proof -
  assume h: "n < 2 ^ 31"
  then have "uint (of_nat n :: 32 word) = int n" by (simp add: uint_small)
  moreover have "int n < 2 ^ 31" using h by (metis of_nat_less_iff of_nat_numeral of_nat_power)
  ultimately show ?thesis by (simp add: sint_uint signed_take_bit_int_eq_self)
qed

lemma drop2: "n < 2 ^ 32 \<Longrightarrow> drop_bit 2 (of_nat n :: 32 word) = of_nat (n div 4)"
proof -
  assume h: "n < 2 ^ 32"
  have "unat (drop_bit 2 (of_nat n :: 32 word)) = n div 4"
    using h by (simp add: unat_div unat_small drop_bit_eq_div)
  then show ?thesis by (metis of_nat_unat ucast_id)
qed

lemma sdrop2: "n < 2 ^ 31 \<Longrightarrow> signed_drop_bit 2 (of_nat n :: 32 word) = of_nat (n div 4)"
proof (rule signed_word_eqI)
  assume h: "n < 2 ^ 31"
  then have "n div 4 < 2 ^ 31" by simp
  then show "sint (signed_drop_bit 2 (word_of_nat n :: 32 word)) = sint (word_of_nat (n div 4) :: 32 word)"
    using h by (simp add: sint_signed_drop_bit_eq sint_small drop_bit_eq_div zdiv_int)
qed

lemma and3: "n < 2 ^ 32 \<Longrightarrow> (of_nat n :: 32 word) AND 3 = of_nat (n mod 4)"
proof -
  assume h: "n < 2 ^ 32"
  have m: "(3::nat) = mask 2" by (simp add: mask_eq_exp_minus_1)
  have "unat ((of_nat n :: 32 word) AND 3) = n AND 3"
    using h by (simp add: unsigned_and_eq unat_small)
  also have "\<dots> = n mod 4" unfolding m by (simp add: take_bit_eq_mask[symmetric] take_bit_eq_mod)
  finally show ?thesis by (metis of_nat_unat ucast_id)
qed

lemma byteOrZero_lt: "byteOrZero buf i < 256"
  using unsigned_less[of "buf ! i", where 'a=nat] by (auto simp: byteOrZero_def byteAt_def)

lemma toInt32_byteAt: "toInt32 (byteAt buf i) = of_nat (byteOrZero buf i)"
  by (simp add: toInt32_def byteOrZero_def split: option.splits)

lemma flag_eq: "toInt32 (byteAt buf i) AND 3 = of_nat (byteOrZero buf i mod 4)"
  using byteOrZero_lt[of buf i] by (simp add: toInt32_byteAt and3)

lemma or_push_bit_int:
  fixes v b :: int
  assumes "0 \<le> v" "v < 2 ^ m"
  shows "v OR push_bit m b = v + push_bit m b"
proof (rule disjunctive_add [symmetric])
  fix j
  show "\<not> bit v j \<or> \<not> bit (push_bit m b) j"
  proof (cases "j < m")
    case True
    then show ?thesis by (simp add: bit_push_bit_iff)
  next
    case False
    then have "(2::int) ^ m \<le> 2 ^ j" by simp
    then have "v < 2 ^ j" using assms by linarith
    then have "v div 2 ^ j = 0" using assms by simp
    then show ?thesis by (simp add: bit_iff_odd)
  qed
qed

lemma bigLoop_upt:
  "0 \<le> v \<Longrightarrow> v < 2 ^ (8 * i) \<Longrightarrow>
   bigLoop buf off [i..<i + k] v =
     (if k = 0 \<or> off + i + k \<le> length buf
      then Inr (v + 2 ^ (8 * i) * int (littleEndian (map unat (take k (drop (off + i) buf)))))
      else Inl TypeError)"
proof (induction k arbitrary: i v)
  case 0
  then show ?case by simp
next
  case (Suc k)
  have upt: "[i..<i + Suc k] = i # [Suc i..<Suc i + k]" by (simp add: upt_conv_Cons)
  show ?case
  proof (cases "off + i < length buf")
    case False
    then show ?thesis unfolding upt by (simp add: byteAt_def)
  next
    case True
    define b where "b = unat (buf ! (off + i))"
    have b: "b < 256" using unsigned_less[of "buf ! (off + i)", where 'a=nat] by (simp add: b_def)
    define v' where "v' = v + 2 ^ (8 * i) * int b"
    have or: "v OR push_bit (i * 8) (int b) = v'"
      using or_push_bit_int[of v "i * 8" "int b"] Suc.prems
      by (simp add: v'_def push_bit_eq_mult mult.commute)
    have v'0: "0 \<le> v'" using Suc.prems by (simp add: v'_def)
    have "(2::int) ^ (8 * i) * int b \<le> 2 ^ (8 * i) * 255"
      using b by (intro mult_left_mono) simp_all
    then have "v' < 2 ^ (8 * i) + 2 ^ (8 * i) * 255"
      unfolding v'_def using Suc.prems(2) by linarith
    then have v'1: "v' < 2 ^ (8 * Suc i)" by (simp add: power_add)
    have tk: "take (Suc k) (drop (off + i) buf) = buf ! (off + i) # take k (drop (off + Suc i) buf)"
      using True by (simp add: take_Suc_conv_app_nth Cons_nth_drop_Suc[symmetric])
    have step: "bigLoop buf off [i..<i + Suc k] v = bigLoop buf off [Suc i..<Suc i + k] v'"
      unfolding upt using True by (simp add: byteAt_def or b_def[symmetric])
    show ?thesis
      unfolding step Suc.IH[OF v'0 v'1] tk
      using True by (auto simp: v'_def b_def power_add algebra_simps)
  qed
qed


lemma readCompactU32_mode0:
  assumes "byteOrZero buf off mod 4 = 0"
  shows "readCompactU32 buf off = Inr (JNum (int (byteOrZero buf off div 4)), off + 1)"
proof -
  have x: "byteOrZero buf off < 256" by (rule byteOrZero_lt)
  then have x': "byteOrZero buf off < 2 ^ 31" "byteOrZero buf off div 4 < 2 ^ 31" by simp_all
  have fl: "toInt32 (byteAt buf off) AND 3 = 0" using assms by (simp add: flag_eq)
  have v: "sint (signed_drop_bit 2 (toInt32 (byteAt buf off))) = int (byteOrZero buf off div 4)"
    unfolding toInt32_byteAt sdrop2[OF x'(1)] sint_small[OF x'(2)] ..
  show ?thesis
    unfolding readCompactU32_def Let_def fl v by simp
qed

lemma readCompactU32_mode1:
  assumes "byteOrZero buf off mod 4 = 1"
  shows "readCompactU32 buf off =
           Inr (JNum (int (littleEndian [byteOrZero buf off, byteOrZero buf (off + 1)] div 4)), off + 2)"
proof -
  define n where "n = byteOrZero buf off + 256 * byteOrZero buf (off + 1)"
  have x: "byteOrZero buf off < 256" "byteOrZero buf (off + 1) < 256" by (rule byteOrZero_lt)+
  then have n: "n < 2 ^ 31" "n div 4 < 2 ^ 32" by (simp_all add: n_def)
  have w: "toInt32 (byteAt buf off) OR push_bit 8 (toInt32 (byteAt buf (off + 1))) = of_nat n"
    using x by (simp add: toInt32_byteAt word_le2 n_def)
  have fl: "toInt32 (byteAt buf off) AND 3 = 1" using assms by (simp add: flag_eq)
  show ?thesis
    unfolding readCompactU32_def Let_def fl w sdrop2[OF n(1)] uint_small[OF n(2)]
    by (simp add: n_def)
qed

lemma readCompactU32_mode2:
  assumes "byteOrZero buf off mod 4 = 2"
  shows "readCompactU32 buf off =
           Inr (JNum (int (littleEndian [byteOrZero buf off, byteOrZero buf (off + 1),
                                       byteOrZero buf (off + 2), byteOrZero buf (off + 3)] div 4)), off + 4)"
proof -
  define n where "n = byteOrZero buf off + 256 * byteOrZero buf (off + 1)
                      + 65536 * byteOrZero buf (off + 2) + 16777216 * byteOrZero buf (off + 3)"
  have x: "byteOrZero buf off < 256" "byteOrZero buf (off + 1) < 256"
          "byteOrZero buf (off + 2) < 256" "byteOrZero buf (off + 3) < 256" by (rule byteOrZero_lt)+
  then have n: "n < 2 ^ 32" "n div 4 < 2 ^ 32" by (simp_all add: n_def)
  have w: "toInt32 (byteAt buf off) OR push_bit 8 (toInt32 (byteAt buf (off + 1)))
             OR push_bit 16 (toInt32 (byteAt buf (off + 2)))
             OR push_bit 24 (toInt32 (byteAt buf (off + 3))) = of_nat n"
    using x by (simp add: toInt32_byteAt word_le4 n_def)
  have fl: "toInt32 (byteAt buf off) AND 3 = 2" using assms by (simp add: flag_eq)
  show ?thesis
    unfolding readCompactU32_def Let_def fl w drop2[OF n(1)] uint_small[OF n(2)]
    by (simp add: n_def)
qed

lemma readCompactU32_mode3:
  assumes "byteOrZero buf off mod 4 = 3"
  shows "readCompactU32 buf off =
           (if off + 1 + (4 + byteOrZero buf off div 4) \<le> length buf
            then Inr (JBig (int (littleEndian (map unat
                        (slice buf (off + 1) (off + 1 + (4 + byteOrZero buf off div 4)))))),
                      off + 1 + (4 + byteOrZero buf off div 4))
            else Inl TypeError)"
proof -
  have x: "byteOrZero buf off < 256" by (rule byteOrZero_lt)
  then have x': "byteOrZero buf off < 2 ^ 31" "byteOrZero buf off div 4 < 2 ^ 31" by simp_all
  have fl: "toInt32 (byteAt buf off) AND 3 = 3" using assms by (simp add: flag_eq)
  have len: "4 + nat (sint (signed_drop_bit 2 (toInt32 (byteAt buf off)))) = 4 + byteOrZero buf off div 4"
    using x' by (simp add: toInt32_byteAt sdrop2 sint_small)
  have loop: "bigLoop buf (off + 1) [0..<4 + byteOrZero buf off div 4] 0 =
      (if off + 1 + (4 + byteOrZero buf off div 4) \<le> length buf
       then Inr (int (littleEndian (map unat (take (4 + byteOrZero buf off div 4) (drop (off + 1) buf)))))
       else Inl TypeError)"
    using bigLoop_upt[of 0 0 buf "off + 1" "4 + byteOrZero buf off div 4"] by simp
  show ?thesis
    unfolding readCompactU32_def Let_def fl len loop
    by (simp add: slice_def)
qed

text \<open>
  C3 (amended). \<open>readCompactU32\<close> selects a mode from the two low bits of the first byte.
  Mode 00 returns the byte shifted right by 2 and consumes 1 byte; mode 01 the 2-byte and mode
  10 the 4-byte little-endian value shifted right by 2 (a byte past the end of the buffer
  reads as 0); in mode 11 the upper six bits of the first byte plus 4 give the count \<open>n\<close> of
  following bytes, and the result is the big integer those \<open>n\<close> little-endian bytes form, or
  a TypeError when the buffer ends before them.
\<close>

theorem readCompactU32_modes:
  "(byteOrZero buf off mod 4 = 0 \<longrightarrow>
      readCompactU32 buf off = Inr (JNum (int (byteOrZero buf off div 4)), off + 1))
   \<and> (byteOrZero buf off mod 4 = 1 \<longrightarrow>
      readCompactU32 buf off =
        Inr (JNum (int (littleEndian [byteOrZero buf off, byteOrZero buf (off + 1)] div 4)), off + 2))
   \<and> (byteOrZero buf off mod 4 = 2 \<longrightarrow>
      readCompactU32 buf off =
        Inr (JNum (int (littleEndian [byteOrZero buf off, byteOrZero buf (off + 1),
                                    byteOrZero buf (off + 2), byteOrZero buf (off + 3)] div 4)), off + 4))
   \<and> (byteOrZero buf off mod 4 = 3 \<longrightarrow>
      (let n = 4 + byteOrZero buf off div 4
       in readCompactU32 buf off =
            (if off + 1 + n \<le> length buf
             then Inr (JBig (int (littleEndian (map unat (slice buf (off + 1) (off + 1 + n))))),
                       off + 1 + n)
             else Inl TypeError)))"
  using readCompactU32_mode0[of buf off] readCompactU32_mode1[of buf off]
    readCompactU32_mode2[of buf off] readCompactU32_mode3[of buf off]
  unfolding Let_def by blast

theorem readCompactU32_modes_witness:
  "readCompactU32 [0x00] 0 = Inr (JNum 0, 1)
   \<and> readCompactU32 [0xFC] 0 = Inr (JNum 63, 1)
   \<and> readCompactU32 [0x01, 0x01] 0 = Inr (JNum 64, 2)
   \<and> readCompactU32 [0x02, 0x00, 0x01, 0x00] 0 = Inr (JNum 16384, 4)
   \<and> readCompactU32 [0x03, 0x00, 0x00, 0x00, 0x40] 0 = Inr (JBig 1073741824, 5)
   \<and> readCompactU32 [0x03, 0x00, 0x00, 0x00] 0 = Inl TypeError"
  using readCompactU32_modes[of "[0x00]" 0] readCompactU32_modes[of "[0xFC]" 0]
    readCompactU32_modes[of "[0x01, 0x01]" 0] readCompactU32_modes[of "[0x02, 0x00, 0x01, 0x00]" 0]
    readCompactU32_modes[of "[0x03, 0x00, 0x00, 0x00, 0x40]" 0]
    readCompactU32_modes[of "[0x03, 0x00, 0x00, 0x00]" 0]
  by (simp add: byteOrZero_def byteAt_def slice_def)

text \<open>
  The claim as stated takes the six bits themselves as the byte count: for the first byte
  \<open>0x03\<close> that count is 0, yet the code reads four bytes.
\<close>

theorem readCompactU32_count_counterexample:
  "byteOrZero [0x03, 0x01, 0x00, 0x00, 0x00] 0 div 4 = 0
   \<and> readCompactU32 [0x03, 0x01, 0x00, 0x00, 0x00] 0 = Inr (JBig 1, 5)
   \<and> readCompactU32 [0x03, 0x01, 0x00, 0x00, 0x00] 0
       \<noteq> Inr (JBig (int (littleEndian (map unat (slice [0x03, 0x01, 0x00, 0x00, 0x00] 1 (1 + 0))))), 1 + 0)"
  using readCompactU32_mode3[of "[0x03, 0x01, 0x00, 0x00, 0x00]" 0]
  by (simp add: byteOrZero_def byteAt_def slice_def)

subsection \<open>Event decoding: the two byte sources\<close>

lemma runArg_indexed:
  assumes "runArg data topics (IndexedArg lbl kind) s = Inr s'"
  shows "st_offset s' = st_offset s" "st_topicIndex s' = st_topicIndex s + 1"
    "runArg data2 topics (IndexedArg lbl kind) s = Inr s'"
  using assms by (auto simp: Let_def split: if_splits sum.splits)

lemma runArg_data:
  assumes "runArg data topics (DataArg lbl c) s = Inr s'"
  shows "st_topicIndex s' = st_topicIndex s"
    "\<exists>v. run c data (st_offset s) = Inr (v, st_offset s') \<and> st_result s' = objSet lbl v (st_result s)"
    "runArg data topics2 (DataArg lbl c) s = Inr s'"
    "st_offset s \<le> length data"
  using assms by (auto simp: Let_def split: if_splits sum.splits)

lemma runArg_data_offset:
  assumes "runArg data topics (DataArg lbl c) s = Inr s'" "st_offset t = st_offset s"
  shows "\<exists>t'. runArg data topics2 (DataArg lbl c) t = Inr t' \<and> st_offset t' = st_offset s'"
  using assms by (auto simp: Let_def split: if_splits sum.splits)

lemma runArgs_cursor:
  assumes "runArgs data topics args s = Inr s'" "st_offset t = st_offset s"
  shows "\<exists>t'. runArgs data topics2 (filter (\<lambda>a. \<not> isIndexedArg a) args) t = Inr t'
              \<and> st_offset t' = st_offset s'
              \<and> st_topicIndex s' = st_topicIndex s + length (filter isIndexedArg args)"
  using assms
proof (induction args arbitrary: s t)
  case Nil
  then show ?case by simp
next
  case (Cons a args)
  from Cons.prems(1) obtain s1 where s1: "runArg data topics a s = Inr s1"
    and rest: "runArgs data topics args s1 = Inr s'"
    by (auto split: sum.splits)
  show ?case
  proof (cases a)
    case (IndexedArg lbl kind)
    from runArg_indexed[OF s1[unfolded IndexedArg]]
    have o: "st_offset s1 = st_offset s" and ti: "st_topicIndex s1 = st_topicIndex s + 1" by auto
    from Cons.IH[OF rest, of t] o Cons.prems(2) ti show ?thesis
      by (auto simp: IndexedArg)
  next
    case (DataArg lbl c)
    from runArg_data_offset[OF s1[unfolded DataArg] Cons.prems(2), of topics2]
    obtain t1 where t1: "runArg data topics2 (DataArg lbl c) t = Inr t1" "st_offset t1 = st_offset s1"
      by auto
    from runArg_data(1)[OF s1[unfolded DataArg]] have ti: "st_topicIndex s1 = st_topicIndex s" .
    from Cons.IH[OF rest t1(2)] t1(1) ti show ?thesis
      by (auto simp: DataArg)
  qed
qed

lemma runArgs_indexed_prefix:
  assumes "runArgs data topics pre s = Inr s1" "list_all isIndexedArg pre"
  shows "st_offset s1 = st_offset s"
  using assms
proof (induction pre arbitrary: s)
  case Nil
  then show ?case by simp
next
  case (Cons a pre)
  from Cons.prems(2) obtain lbl kind where a: "a = IndexedArg lbl kind" by (cases a) auto
  from Cons.prems(1) obtain s0 where s0: "runArg data topics (IndexedArg lbl kind) s = Inr s0"
    and rest: "runArgs data topics pre s0 = Inr s1"
    by (auto simp: a split: sum.splits)
  from Cons.IH[OF rest] Cons.prems(2) runArg_indexed(1)[OF s0] show ?case by simp
qed

lemma generateArg_indexed:
  "generateArg depth types a = Inr ac \<Longrightarrow> isIndexedArg ac = argIndexed a"
  by (auto simp: generateArg_def Let_def split: if_splits sum.splits)

text \<open>
  C1 (amended). In every decoder that \<open>generateEventDecoder\<close> emits, the block of an indexed
  argument reads the next topic and nothing of the data buffer: it leaves the data offset
  unchanged and advances the topic index by one. The block of any other argument decodes
  from the data buffer at the data offset, reads no topic and leaves the topic index
  unchanged. Over a whole argument list the final data offset is therefore the one reached
  by the non-indexed arguments alone, and after a prefix of indexed arguments the first
  non-indexed argument is decoded at data offset 0.
\<close>

theorem generated_decoder_cursor:
  "(generateArg depth types a = Inr ac \<longrightarrow> isIndexedArg ac = argIndexed a)
   \<and> (runArg data topics (IndexedArg lbl kind) s = Inr s' \<longrightarrow>
        st_offset s' = st_offset s \<and> st_topicIndex s' = st_topicIndex s + 1
        \<and> runArg data2 topics (IndexedArg lbl kind) s = Inr s')
   \<and> (runArg data topics (DataArg lbl c) s = Inr s' \<longrightarrow>
        st_topicIndex s' = st_topicIndex s
        \<and> (\<exists>v. run c data (st_offset s) = Inr (v, st_offset s')
                 \<and> st_result s' = objSet lbl v (st_result s))
        \<and> runArg data topics2 (DataArg lbl c) s = Inr s')
   \<and> (runArgs data topics args s = Inr s' \<longrightarrow>
        (\<exists>t'. runArgs data topics2 (filter (\<lambda>a. \<not> isIndexedArg a) args) s = Inr t'
              \<and> st_offset t' = st_offset s')
        \<and> st_topicIndex s' = st_topicIndex s + length (filter isIndexedArg args))
   \<and> (list_all isIndexedArg pre
        \<and> runArgs data topics pre \<lparr>st_offset = 0, st_topicIndex = 1, st_result = []\<rparr> = Inr s1 \<longrightarrow>
        st_offset s1 = 0
        \<and> runArg data topics (DataArg lbl c) s1 =
            (case run c data 0 of
               Inl e \<Rightarrow> Inl e
             | Inr r \<Rightarrow> Inr (s1\<lparr>st_offset := snd r, st_result := objSet lbl (fst r) (st_result s1)\<rparr>)))"
proof (intro conjI impI)
  assume "generateArg depth types a = Inr ac"
  then show "isIndexedArg ac = argIndexed a" by (rule generateArg_indexed)
next
  assume h: "runArg data topics (IndexedArg lbl kind) s = Inr s'"
  show "st_offset s' = st_offset s" by (rule runArg_indexed(1)[OF h])
  show "st_topicIndex s' = st_topicIndex s + 1" by (rule runArg_indexed(2)[OF h])
  show "runArg data2 topics (IndexedArg lbl kind) s = Inr s'" by (rule runArg_indexed(3)[OF h])
next
  assume h: "runArg data topics (DataArg lbl c) s = Inr s'"
  show "st_topicIndex s' = st_topicIndex s" by (rule runArg_data(1)[OF h])
  show "\<exists>v. run c data (st_offset s) = Inr (v, st_offset s') \<and> st_result s' = objSet lbl v (st_result s)"
    by (rule runArg_data(2)[OF h])
  show "runArg data topics2 (DataArg lbl c) s = Inr s'" by (rule runArg_data(3)[OF h])
next
  assume h: "runArgs data topics args s = Inr s'"
  from runArgs_cursor[OF h refl, of topics2]
  show "\<exists>t'. runArgs data topics2 (filter (\<lambda>a. \<not> isIndexedArg a) args) s = Inr t' \<and> st_offset t' = st_offset s'"
    by blast
  from runArgs_cursor[OF h refl, of topics2]
  show "st_topicIndex s' = st_topicIndex s + length (filter isIndexedArg args)" by blast
next
  assume h: "list_all isIndexedArg pre \<and> runArgs data topics pre \<lparr>st_offset = 0, st_topicIndex = 1, st_result = []\<rparr> = Inr s1"
  then have "st_offset s1 = st_offset \<lparr>st_offset = 0, st_topicIndex = 1, st_result = []\<rparr>"
    by (intro runArgs_indexed_prefix[of data topics pre]) simp_all
  then have o: "st_offset s1 = 0" by simp
  then show "st_offset s1 = 0" .
  show "runArg data topics (DataArg lbl c) s1 =
            (case run c data 0 of
               Inl e \<Rightarrow> Inl e
             | Inr r \<Rightarrow> Inr (s1\<lparr>st_offset := snd r, st_result := objSet lbl (fst r) (st_result s1)\<rparr>))"
    by (simp add: o)
qed


lemma new_game_run:
  "runArgs (hexToBytes ''0x01006400'')
     [''0xc8a7c5d86cdaf43555273e08a00e4cdaa93cf22046685231d5eb1b6c0d29fa92'',
      ''0x0100000000000000000000000000000000000000000000000000000000000000'',
      ''0x000000000000000000000000e75cbd47620dbb2053cf2a98d06840f06baaf141'']
     decodeNewGame \<lparr>st_offset = 0, st_topicIndex = 1, st_result = []\<rparr>
   = Inr \<lparr>st_offset = 4, st_topicIndex = 3,
          st_result = [(''game_number'', JBig 1),
                       (''player'', JStr ''0xe75cbd47620dbb2053cf2a98d06840f06baaf141''),
                       (''min_number'', JNum 1), (''max_number'', JNum 100)]\<rparr>"
  by code_simp

lemma new_game_steps:
  "generateArg 2 [(0, \<lparr>tdef = Primitive ''u16'', tpath = []\<rparr>)]
       \<lparr>argLabel = ''min_number'', argType = 0, argIndexed = False\<rparr>
     = Inr (DataArg ''min_number'' CallReadU16)
   \<and> runArg (hexToBytes ''0x01006400'')
       [''0xc8a7c5d86cdaf43555273e08a00e4cdaa93cf22046685231d5eb1b6c0d29fa92'',
        ''0x0100000000000000000000000000000000000000000000000000000000000000'',
        ''0x000000000000000000000000e75cbd47620dbb2053cf2a98d06840f06baaf141'']
       (IndexedArg ''game_number'' TopicU128)
       \<lparr>st_offset = 0, st_topicIndex = 1, st_result = []\<rparr>
     = Inr \<lparr>st_offset = 0, st_topicIndex = 2, st_result = [(''game_number'', JBig 1)]\<rparr>
   \<and> runArgs (hexToBytes ''0x01006400'')
       [''0xc8a7c5d86cdaf43555273e08a00e4cdaa93cf22046685231d5eb1b6c0d29fa92'',
        ''0x0100000000000000000000000000000000000000000000000000000000000000'',
        ''0x000000000000000000000000e75cbd47620dbb2053cf2a98d06840f06baaf141'']
       [IndexedArg ''game_number'' TopicU128, IndexedArg ''player'' TopicH160]
       \<lparr>st_offset = 0, st_topicIndex = 1, st_result = []\<rparr>
     = Inr \<lparr>st_offset = 0, st_topicIndex = 3,
            st_result = [(''game_number'', JBig 1),
                         (''player'', JStr ''0xe75cbd47620dbb2053cf2a98d06840f06baaf141'')]\<rparr>
   \<and> runArg (hexToBytes ''0x01006400'')
       [''0xc8a7c5d86cdaf43555273e08a00e4cdaa93cf22046685231d5eb1b6c0d29fa92'',
        ''0x0100000000000000000000000000000000000000000000000000000000000000'',
        ''0x000000000000000000000000e75cbd47620dbb2053cf2a98d06840f06baaf141'']
       (DataArg ''min_number'' CallReadU16)
       \<lparr>st_offset = 0, st_topicIndex = 3,
        st_result = [(''game_number'', JBig 1),
                     (''player'', JStr ''0xe75cbd47620dbb2053cf2a98d06840f06baaf141'')]\<rparr>
     = Inr \<lparr>st_offset = 2, st_topicIndex = 3,
            st_result = [(''game_number'', JBig 1),
                         (''player'', JStr ''0xe75cbd47620dbb2053cf2a98d06840f06baaf141''),
                         (''min_number'', JNum 1)]\<rparr>"
  by code_simp

theorem generated_decoder_cursor_witness:
  "runArgs (hexToBytes ''0x01006400'')
     [''0xc8a7c5d86cdaf43555273e08a00e4cdaa93cf22046685231d5eb1b6c0d29fa92'',
      ''0x0100000000000000000000000000000000000000000000000000000000000000'',
      ''0x000000000000000000000000e75cbd47620dbb2053cf2a98d06840f06baaf141'']
     decodeNewGame \<lparr>st_offset = 0, st_topicIndex = 1, st_result = []\<rparr>
   = Inr \<lparr>st_offset = 4, st_topicIndex = 3,
          st_result = [(''game_number'', JBig 1),
                       (''player'', JStr ''0xe75cbd47620dbb2053cf2a98d06840f06baaf141''),
                       (''min_number'', JNum 1), (''max_number'', JNum 100)]\<rparr>
   \<and> (\<exists>t'. runArgs (hexToBytes ''0x01006400'') []
              (filter (\<lambda>a. \<not> isIndexedArg a) decodeNewGame)
              \<lparr>st_offset = 0, st_topicIndex = 1, st_result = []\<rparr> = Inr t'
            \<and> st_offset t' = 4)
   \<and> (3::nat) = 1 + length (filter isIndexedArg decodeNewGame)
   \<and> generateArg 2 [(0, \<lparr>tdef = Primitive ''u16'', tpath = []\<rparr>)]
         \<lparr>argLabel = ''min_number'', argType = 0, argIndexed = False\<rparr>
       = Inr (DataArg ''min_number'' CallReadU16)
   \<and> \<not> isIndexedArg (DataArg ''min_number'' CallReadU16)
   \<and> runArg [] 
         [''0xc8a7c5d86cdaf43555273e08a00e4cdaa93cf22046685231d5eb1b6c0d29fa92'',
          ''0x0100000000000000000000000000000000000000000000000000000000000000'',
          ''0x000000000000000000000000e75cbd47620dbb2053cf2a98d06840f06baaf141'']
         (IndexedArg ''game_number'' TopicU128)
         \<lparr>st_offset = 0, st_topicIndex = 1, st_result = []\<rparr>
       = Inr \<lparr>st_offset = 0, st_topicIndex = 2, st_result = [(''game_number'', JBig 1)]\<rparr>
   \<and> runArg (hexToBytes ''0x01006400'') []
         (DataArg ''min_number'' CallReadU16)
         \<lparr>st_offset = 0, st_topicIndex = 3,
          st_result = [(''game_number'', JBig 1),
                       (''player'', JStr ''0xe75cbd47620dbb2053cf2a98d06840f06baaf141'')]\<rparr>
       = Inr \<lparr>st_offset = 2, st_topicIndex = 3,
              st_result = [(''game_number'', JBig 1),
                           (''player'', JStr ''0xe75cbd47620dbb2053cf2a98d06840f06baaf141''),
                           (''min_number'', JNum 1)]\<rparr>
   \<and> run CallReadU16 (hexToBytes ''0x01006400'') 0 = Inr (JNum 1, 2)"
  using generated_decoder_cursor
    [where data = "hexToBytes ''0x01006400''"
       and topics = "[''0xc8a7c5d86cdaf43555273e08a00e4cdaa93cf22046685231d5eb1b6c0d29fa92'',
                      ''0x0100000000000000000000000000000000000000000000000000000000000000'',
                      ''0x000000000000000000000000e75cbd47620dbb2053cf2a98d06840f06baaf141'']"
       and args = decodeNewGame
       and s = "\<lparr>st_offset = 0, st_topicIndex = 1, st_result = []\<rparr>"
       and s' = "\<lparr>st_offset = 4, st_topicIndex = 3,
                  st_result = [(''game_number'', JBig 1),
                               (''player'', JStr ''0xe75cbd47620dbb2053cf2a98d06840f06baaf141''),
                               (''min_number'', JNum 1), (''max_number'', JNum 100)]\<rparr>"
       and ?topics2.0 = "[]"]
    generated_decoder_cursor
    [where depth = 2 and types = "[(0, \<lparr>tdef = Primitive ''u16'', tpath = []\<rparr>)]"
       and a = "\<lparr>argLabel = ''min_number'', argType = 0, argIndexed = False\<rparr>"
       and ac = "DataArg ''min_number'' CallReadU16"
       and data = "hexToBytes ''0x01006400''"
       and topics = "[''0xc8a7c5d86cdaf43555273e08a00e4cdaa93cf22046685231d5eb1b6c0d29fa92'',
                      ''0x0100000000000000000000000000000000000000000000000000000000000000'',
                      ''0x000000000000000000000000e75cbd47620dbb2053cf2a98d06840f06baaf141'']"
       and lbl = "''game_number''" and kind = TopicU128
       and s = "\<lparr>st_offset = 0, st_topicIndex = 1, st_result = []\<rparr>"
       and s' = "\<lparr>st_offset = 0, st_topicIndex = 2, st_result = [(''game_number'', JBig 1)]\<rparr>"
       and ?data2.0 = "[]"]
    generated_decoder_cursor
    [where data = "hexToBytes ''0x01006400''"
       and topics = "[''0xc8a7c5d86cdaf43555273e08a00e4cdaa93cf22046685231d5eb1b6c0d29fa92'',
                      ''0x0100000000000000000000000000000000000000000000000000000000000000'',
                      ''0x000000000000000000000000e75cbd47620dbb2053cf2a98d06840f06baaf141'']"
       and lbl = "''min_number''" and c = CallReadU16
       and pre = "[IndexedArg ''game_number'' TopicU128, IndexedArg ''player'' TopicH160]"
       and s = "\<lparr>st_offset = 0, st_topicIndex = 3,
                 st_result = [(''game_number'', JBig 1),
                              (''player'', JStr ''0xe75cbd47620dbb2053cf2a98d06840f06baaf141'')]\<rparr>"
       and s' = "\<lparr>st_offset = 2, st_topicIndex = 3,
                  st_result = [(''game_number'', JBig 1),
                               (''player'', JStr ''0xe75cbd47620dbb2053cf2a98d06840f06baaf141''),
                               (''min_number'', JNum 1)]\<rparr>"
       and ?s1.0 = "\<lparr>st_offset = 0, st_topicIndex = 3,
                 st_result = [(''game_number'', JBig 1),
                              (''player'', JStr ''0xe75cbd47620dbb2053cf2a98d06840f06baaf141'')]\<rparr>"
       and ?topics2.0 = "[]"]
    new_game_run new_game_steps
  by (simp add: objSet.simps)

text \<open>
  The interpreting decoder \<open>SubsquidInkDecoder\<close> does otherwise: before the first
  non-indexed argument it moves the data offset past every indexed argument. With an indexed
  \<open>u16\<close> followed by a non-indexed \<open>u16\<close> and the data \<open>01 00 02 00\<close>, the non-indexed
  argument is decoded at offset 2 (value 2), not at offset 0 (value 1).
\<close>

theorem interpreting_decoder_skips_counterexample:
  "decodeEventData 2 [(0, \<lparr>tdef = Primitive ''u16'', tpath = []\<rparr>)] [0x01, 0x00, 0x02, 0x00]
     \<lparr>evLabel = ''E'',
      evArgs = [\<lparr>argLabel = ''a'', argType = 0, argIndexed = True\<rparr>,
                \<lparr>argLabel = ''b'', argType = 0, argIndexed = False\<rparr>],
      signature_topic = ''0xab''\<rparr>
     [''0xab'', ''0x0700'']
   = Inr [(''a'', JNum 7), (''b'', JNum 2)]
   \<and> decodeValue 1 [(0, \<lparr>tdef = Primitive ''u16'', tpath = []\<rparr>)] [0x01, 0x00, 0x02, 0x00] 0
         \<lparr>tdef = Primitive ''u16'', tpath = []\<rparr>
       = Inr (JNum 1, 2)"
  by code_simp

subsection \<open>Variants\<close>

lemma mapResult_map:
  assumes "mapResult f xs = Inr ys" "\<And>x y. f x = Inr y \<Longrightarrow> g y = h x"
  shows "map g ys = map h xs"
  using assms(1)
proof (induction xs arbitrary: ys)
  case Nil
  then show ?case by simp
next
  case (Cons x xs)
  then show ?case by (auto split: sum.splits simp: assms(2))
qed

lemma runCases_unknown:
  "d \<notin> set (map fst cases) \<Longrightarrow>
   runCases cases (Some d) data off =
     Inr (JObj [(''tag'', JStr ''UnknownVariant''), (''index'', JNum (int d))], off)"
  by (induction cases) (auto simp: numOf_def)

lemma generate_variant_switch:
  assumes "map_of types typeId = Some t" "tdef t = Variant variants"
    "\<not> list_all (\<lambda>v. variantFields v = []) variants"
    "generateDecodeCall depth types typeId ov = Inr c"
  shows "\<exists>cases. c = SwitchCode ov cases \<and> map fst cases = map variantIndex variants"
proof -
  from assms(4) obtain n where n: "depth = Suc n" by (cases depth) auto
  let ?f = "\<lambda>v. if variantFields v = []
                            then Inr (variantIndex v, variantName v, UnitBody)
                            else if list_ex hasName (variantFields v)
                            then
                              (case mapResult
                                      (\<lambda>(idx, f).
                                         case generateDecodeCall n types (fieldType f) VariantOffset of
                                           Inl e \<Rightarrow> Inl e
                                         | Inr c \<Rightarrow> Inr (fieldNameOr f idx, c))
                                      (enumerate 0 (variantFields v)) of
                                 Inl e \<Rightarrow> Inl e
                               | Inr fs \<Rightarrow> Inr (variantIndex v, variantName v, StructBody fs))
                            else
                              (case mapResult
                                      (\<lambda>f. generateDecodeCall n types (fieldType f) VariantOffset)
                                      (variantFields v) of
                                 Inl e \<Rightarrow> Inl e
                               | Inr cs \<Rightarrow> Inr (variantIndex v, variantName v, TupleBody cs))"
  from assms(1-4) obtain cases where cs: "mapResult ?f variants = Inr cases" and c: "c = SwitchCode ov cases"
    unfolding n by (auto split: sum.splits)
  have "map fst cases = map variantIndex variants"
    by (rule mapResult_map[OF cs]) (auto split: if_splits sum.splits)
  with c show ?thesis by blast
qed

text \<open>
  C2 (amended). The generator emits one of two snippets for a variant type. When every
  variant is fieldless, the discriminant byte indexes the list of variant names and the value
  is the name at that position, or the string \<open>Unknown\<close> when there is none (or the name is
  empty). Otherwise the snippet is a switch over the variant indices, and a discriminant
  byte that is no variant's index gives the tagged value \<open>{tag: 'UnknownVariant', index}\<close>
  (unless the snippet sits directly inside another variant's fields, where it fails before
  reading). Neither snippet raises on an unknown discriminant, and each consumes one byte.
\<close>

theorem variant_unknown_discriminant:
  "(map_of types typeId = Some t \<and> tdef t = Variant variants
      \<and> list_all (\<lambda>v. variantFields v = []) variants \<and> byteAt data off = Some d \<longrightarrow>
      generateDecodeCall (Suc depth) types typeId ov = Inr (UnitVariantCode (map variantName variants))
      \<and> run (UnitVariantCode (map variantName variants)) data off =
          Inr (JStr (if d < length variants \<and> variantName (variants ! d) \<noteq> []
                     then variantName (variants ! d) else ''Unknown''), off + 1))
   \<and> (map_of types typeId = Some t \<and> tdef t = Variant variants
      \<and> \<not> list_all (\<lambda>v. variantFields v = []) variants
      \<and> generateDecodeCall depth' types typeId ov = Inr c \<and> ov \<noteq> VariantOffset
      \<and> byteAt data off = Some d \<and> d \<notin> set (map variantIndex variants) \<longrightarrow>
      run c data off =
        Inr (JObj [(''tag'', JStr ''UnknownVariant''), (''index'', JNum (int d))], off + 1))"
proof (intro conjI impI)
  assume h: "map_of types typeId = Some t \<and> tdef t = Variant variants
      \<and> list_all (\<lambda>v. variantFields v = []) variants \<and> byteAt data off = Some d"
  then show "generateDecodeCall (Suc depth) types typeId ov = Inr (UnitVariantCode (map variantName variants))"
    by simp
  from h show "run (UnitVariantCode (map variantName variants)) data off =
          Inr (JStr (if d < length variants \<and> variantName (variants ! d) \<noteq> []
                     then variantName (variants ! d) else ''Unknown''), off + 1)"
    by (auto simp: run.simps unitName_def)
next
  assume h: "map_of types typeId = Some t \<and> tdef t = Variant variants
      \<and> \<not> list_all (\<lambda>v. variantFields v = []) variants
      \<and> generateDecodeCall depth' types typeId ov = Inr c \<and> ov \<noteq> VariantOffset
      \<and> byteAt data off = Some d \<and> d \<notin> set (map variantIndex variants)"
  then obtain cases where c: "c = SwitchCode ov cases" "map fst cases = map variantIndex variants"
    using generate_variant_switch[of types typeId t variants depth' ov c] by blast
  with h have "d \<notin> set (map fst cases)" by simp
  from runCases_unknown[OF this] h show "run c data off =
        Inr (JObj [(''tag'', JStr ''UnknownVariant''), (''index'', JNum (int d))], off + 1)"
    by (simp add: c run.simps)
qed

lemma variant_examples:
  "generateDecodeCall 2
     [(0, \<lparr>tdef = Variant [VariantDef 0 ''A'' [], VariantDef 1 ''B'' [Field None 1]], tpath = []\<rparr>),
      (1, \<lparr>tdef = Primitive ''u8'', tpath = []\<rparr>)] 0 Offset
     = Inr (SwitchCode Offset [(0, ''A'', UnitBody), (1, ''B'', TupleBody [CallReadU8])])
   \<and> run (SwitchCode Offset [(0, ''A'', UnitBody), (1, ''B'', TupleBody [CallReadU8])]) [0x05] 0
       = Inr (JObj [(''tag'', JStr ''UnknownVariant''), (''index'', JNum 5)], 1)
   \<and> run (UnitVariantCode [''More'', ''Less'', ''Found'']) [0x02] 0 = Inr (JStr ''Found'', 1)"
  by code_simp

lemma unit_variant_example:
  "generateDecodeCall 1
     [(0, \<lparr>tdef = Variant [VariantDef 0 ''More'' [], VariantDef 1 ''Less'' [], VariantDef 2 ''Found'' []],
           tpath = []\<rparr>)] 0 Offset
     = Inr (UnitVariantCode [''More'', ''Less'', ''Found''])"
  by code_simp

theorem variant_unknown_discriminant_witness:
  "generateDecodeCall 2
     [(0, \<lparr>tdef = Variant [VariantDef 0 ''A'' [], VariantDef 1 ''B'' [Field None 1]], tpath = []\<rparr>),
      (1, \<lparr>tdef = Primitive ''u8'', tpath = []\<rparr>)] 0 Offset
     = Inr (SwitchCode Offset [(0, ''A'', UnitBody), (1, ''B'', TupleBody [CallReadU8])])
   \<and> run (SwitchCode Offset [(0, ''A'', UnitBody), (1, ''B'', TupleBody [CallReadU8])]) [0x05] 0
       = Inr (JObj [(''tag'', JStr ''UnknownVariant''), (''index'', JNum 5)], 1)
   \<and> generateDecodeCall 1
       [(0, \<lparr>tdef = Variant [VariantDef 0 ''More'' [], VariantDef 1 ''Less'' [], VariantDef 2 ''Found'' []],
             tpath = []\<rparr>)] 0 Offset
       = Inr (UnitVariantCode [''More'', ''Less'', ''Found''])
   \<and> run (UnitVariantCode [''More'', ''Less'', ''Found'']) [0x02] 0 = Inr (JStr ''Found'', 1)"
  using variant_unknown_discriminant
    [where types = "[(0, \<lparr>tdef = Variant [VariantDef 0 ''A'' [], VariantDef 1 ''B'' [Field None 1]],
                          tpath = []\<rparr>),
                     (1, \<lparr>tdef = Primitive ''u8'', tpath = []\<rparr>)]"
       and typeId = 0
       and t = "\<lparr>tdef = Variant [VariantDef 0 ''A'' [], VariantDef 1 ''B'' [Field None 1]], tpath = []\<rparr>"
       and variants = "[VariantDef 0 ''A'' [], VariantDef 1 ''B'' [Field None 1]]"
       and depth' = 2 and ov = Offset and data = "[0x05]" and off = 0 and d = 5
       and c = "SwitchCode Offset [(0, ''A'', UnitBody), (1, ''B'', TupleBody [CallReadU8])]"]
    variant_unknown_discriminant
    [where types = "[(0, \<lparr>tdef = Variant [VariantDef 0 ''More'' [], VariantDef 1 ''Less'' [],
                                           VariantDef 2 ''Found'' []], tpath = []\<rparr>)]"
       and typeId = 0
       and t = "\<lparr>tdef = Variant [VariantDef 0 ''More'' [], VariantDef 1 ''Less'' [],
                                VariantDef 2 ''Found'' []], tpath = []\<rparr>"
       and variants = "[VariantDef 0 ''More'' [], VariantDef 1 ''Less'' [], VariantDef 2 ''Found'' []]"
       and depth = 0 and ov = Offset and data = "[0x02]" and off = 0 and d = 2]
    variant_examples
  by (simp add: byteAt_def)

text \<open>
  The 3-unit variant of the claim: byte \<open>0x05\<close> decodes to the string \<open>Unknown\<close> in the
  generated decoder (the snippet of \<open>decodeClueGiven\<close>), not to a tagged value, and the
  interpreting decoder throws.
\<close>

theorem unit_variant_unknown_counterexample:
  "generateDecodeCall 1
     [(0, \<lparr>tdef = Variant [VariantDef 0 ''More'' [], VariantDef 1 ''Less'' [],
                           VariantDef 2 ''Found'' []], tpath = []\<rparr>)] 0 Offset
     = Inr (UnitVariantCode [''More'', ''Less'', ''Found''])
   \<and> run (UnitVariantCode [''More'', ''Less'', ''Found'']) [0x05] 0 = Inr (JStr ''Unknown'', 1)
   \<and> decodeValue 1 [] [0x05] 0
         \<lparr>tdef = Variant [VariantDef 0 ''More'' [], VariantDef 1 ''Less'' [],
                          VariantDef 2 ''Found'' []], tpath = []\<rparr>
       = Inl (Error ''Invalid variant index: 5'')"
  by code_simp

subsection \<open>Indexed arguments\<close>










subsection \<open>Sequences\<close>

text \<open>
  C6. The generator takes the raw-slice path for a sequence exactly when the element type
  id is 5, whatever type that id names. With a table where id 5 is \<open>u32\<close>, a \<open>Vec<u32>\<close> of two
  elements is returned as the two bytes after the compact length and the offset ends after
  those two bytes; with a table where \<open>u8\<close> has id 2, a \<open>Vec<u8>\<close> is decoded element by
  element into an array of numbers.
\<close>

theorem vec_special_case_is_type_id_5:
  "generateDecodeCall 2
     [(5, \<lparr>tdef = Primitive ''u32'', tpath = []\<rparr>), (6, \<lparr>tdef = Sequence 5, tpath = []\<rparr>)] 6 Offset
     = Inr VecU8Code
   \<and> run VecU8Code [0x08, 0x01, 0x00, 0x00, 0x00, 0x02, 0x00, 0x00, 0x00] 0
       = Inr (JBytes [0x01, 0x00], 3)
   \<and> generateDecodeCall 2
     [(2, \<lparr>tdef = Primitive ''u8'', tpath = []\<rparr>), (7, \<lparr>tdef = Sequence 2, tpath = []\<rparr>)] 7 Offset
     = Inr (VecCode Offset CallReadU8)
   \<and> run (VecCode Offset CallReadU8) [0x08, 0x01, 0x02] 0 = Inr (JArr [JNum 1, JNum 2], 3)
   \<and> generateDecodeCall 2
     [(8, \<lparr>tdef = Primitive ''u32'', tpath = []\<rparr>), (9, \<lparr>tdef = Sequence 8, tpath = []\<rparr>)] 9 Offset
     = Inr (VecCode Offset CallReadU32)
   \<and> run (VecCode Offset CallReadU32) [0x08, 0x01, 0x00, 0x00, 0x00, 0x02, 0x00, 0x00, 0x00] 0
       = Inr (JArr [JNum 1, JNum 2], 9)"
  by code_simp

subsection \<open>Version resolution\<close>

lemma set_insertSorted: "set (insertSorted cmp x ys) = insert x (set ys)"
  by (induction ys) auto

lemma set_sortWith: "set (sortWith cmp xs) = set xs"
  by (induction xs) (simp_all add: sortWith_def set_insertSorted)

lemma sortWith_Cons: "sortWith cmp (x # xs) = insertSorted cmp x (sortWith cmp xs)"
  by (simp add: sortWith_def)

lemma headIsLatest_insert:
  "headIsLatest ys \<Longrightarrow> headIsLatest (insertSorted compareFrom x ys)"
proof (cases ys)
  case Nil
  then show ?thesis by (simp add: headIsLatest_def)
next
  case (Cons y r)
  assume "headIsLatest ys"
  then have r: "\<forall>e' \<in> set r. fromOrZero e' \<le> fromOrZero y" by (simp add: Cons headIsLatest_def)
  show ?thesis
  proof (cases "compareFrom x y \<le> 0")
    case True
    then have "fromOrZero y \<le> fromOrZero x" by (simp add: compareFrom_def)
    with r show ?thesis using True by (auto simp: Cons headIsLatest_def)
  next
    case False
    then have "fromOrZero x \<le> fromOrZero y" by (simp add: compareFrom_def)
    with r show ?thesis using False by (auto simp: Cons headIsLatest_def set_insertSorted)
  qed
qed

lemma headIsLatest_sortWith: "headIsLatest (sortWith compareFrom xs)"
  by (induction xs) (simp_all add: sortWith_Cons headIsLatest_insert, simp add: sortWith_def headIsLatest_def)

lemma sortWith_head:
  assumes "xs \<noteq> []"
  shows "\<exists>e r. sortWith compareFrom xs = e # r \<and> e \<in> set xs
               \<and> (\<forall>e' \<in> set xs. fromOrZero e' \<le> fromOrZero e)"
proof -
  from assms have "set (sortWith compareFrom xs) \<noteq> {}" by (simp add: set_sortWith)
  then obtain e r where er: "sortWith compareFrom xs = e # r" by (cases "sortWith compareFrom xs") auto
  have s: "set xs = insert e (set r)" using set_sortWith[of compareFrom xs] by (simp add: er)
  from headIsLatest_sortWith[of xs] have "\<forall>e' \<in> set r. fromOrZero e' \<le> fromOrZero e"
    by (simp add: er headIsLatest_def)
  with s er show ?thesis by auto
qed

lemma addressMatch_eq: "addressMatch address e = wildcardOrContains address e"
  by (auto simp: addressMatch_def wildcardOrContains_def split: option.splits)

lemma rangeMatch_eq: "veTo e \<noteq> Some 0 \<Longrightarrow> rangeMatch h e = rangeContains h e"
  by (auto simp: rangeMatch_def rangeContains_def split: option.splits)

lemma candidates_eq:
  assumes "\<forall>e \<in> set registry. veTo e \<noteq> Some 0"
  shows "(let addressMatches = filter (addressMatch address) registry;
              rangeMatches = filter (rangeMatch h) addressMatches
          in if length rangeMatches > 0 then rangeMatches else addressMatches)
         = candidatesOf registry address h"
proof -
  have a: "filter (addressMatch address) registry = filter (wildcardOrContains address) registry"
    by (simp add: addressMatch_eq[abs_def])
  have r: "filter (rangeMatch h) (filter (wildcardOrContains address) registry)
         = filter (rangeContains h) (filter (wildcardOrContains address) registry)"
    using assms by (intro filter_cong) (auto simp: rangeMatch_eq)
  show ?thesis unfolding candidatesOf_def Let_def a r by (simp del: filter_filter)
qed

text \<open>
  C4 (amended). For every registry list none of whose entries has \<open>to = 0\<close>, every address
  and every block height: \<open>resolveDecoder\<close> keeps the entries whose address list is absent
  or empty or contains the address, compared as the strings are, without case
  normalisation; among those it keeps the entries whose half-open range contains the block
  height; if none is in range it falls back to the entries kept for the address; it returns
  the version of a candidate with the greatest \<open>from\<close> (absent counted as 0); and it fails,
  with \<open>No decoder version found\<close>, exactly when no entry is kept for the address.
\<close>

theorem resolveDecoder_spec:
  "(\<forall>e \<in> set registry. veTo e \<noteq> Some 0) \<longrightarrow>
     (filter (wildcardOrContains address) registry = [] \<longrightarrow>
        generatedResolveDecoder registry address blockHeight
          = Inl (Error (''No decoder version found for address '' @ address)))
     \<and> (filter (wildcardOrContains address) registry \<noteq> [] \<longrightarrow>
        (\<exists>e. e \<in> set (candidatesOf registry address blockHeight)
             \<and> (\<forall>e' \<in> set (candidatesOf registry address blockHeight). fromOrZero e' \<le> fromOrZero e)
             \<and> generatedResolveDecoder registry address blockHeight = Inr (veVersion e)))"
proof (intro impI conjI)
  assume h: "\<forall>e \<in> set registry. veTo e \<noteq> Some 0"
  note c = candidates_eq[OF h, of address blockHeight, unfolded Let_def]
  {
    assume e: "filter (wildcardOrContains address) registry = []"
    then have "candidatesOf registry address blockHeight = []" by (simp add: candidatesOf_def)
    then show "generatedResolveDecoder registry address blockHeight
          = Inl (Error (''No decoder version found for address '' @ address))"
      unfolding generatedResolveDecoder_def resolveDecoder_def Let_def c by simp
  }
  {
    assume ne: "filter (wildcardOrContains address) registry \<noteq> []"
    then have cne: "candidatesOf registry address blockHeight \<noteq> []"
      by (simp add: candidatesOf_def Let_def)
    from sortWith_head[OF cne] obtain e r where
      er: "sortWith compareFrom (candidatesOf registry address blockHeight) = e # r"
      and mem: "e \<in> set (candidatesOf registry address blockHeight)"
      and mx: "\<forall>e' \<in> set (candidatesOf registry address blockHeight). fromOrZero e' \<le> fromOrZero e"
      by blast
    have "set (candidatesOf registry address blockHeight) \<subseteq> set registry"
      by (auto simp: candidatesOf_def Let_def)
    with mem have "veVersion e \<in> set (map veVersion registry)" by auto
    then have "generatedResolveDecoder registry address blockHeight = Inr (veVersion e)"
      unfolding generatedResolveDecoder_def resolveDecoder_def Let_def c using cne by (simp add: er)
    with mem mx show "\<exists>e. e \<in> set (candidatesOf registry address blockHeight)
             \<and> (\<forall>e' \<in> set (candidatesOf registry address blockHeight). fromOrZero e' \<le> fromOrZero e)
             \<and> generatedResolveDecoder registry address blockHeight = Inr (veVersion e)"
      by blast
  }
qed

lemma registry_examples:
  "generatedResolveDecoder registry_ts ''0xe75cbd47620dbb2053cf2a98d06840f06baaf141'' 1934744 = Inr ''v0.1.0''
   \<and> generatedResolveDecoder registry_ts ''0xe75cbd47620dbb2053cf2a98d06840f06baaf141'' 9999999 = Inr ''v0.1.0''
   \<and> generatedResolveDecoder registry_ts ''0xe75cbd47620dbb2053cf2a98d06840f06baaf141'' 1934743 = Inr ''v0.1.0''
   \<and> generatedResolveDecoder registry_ts ''0x00'' 1934744
       = Inl (Error ''No decoder version found for address 0x00'')"
  by (simp add: generatedResolveDecoder_def resolveDecoder_def registry_ts_def addressMatch_def
        rangeMatch_def sortWith_def)

lemma registry_hyps:
  "(\<forall>e \<in> set registry_ts. veTo e \<noteq> Some 0)
   \<and> list_all (\<lambda>e. veTo e \<noteq> Some 0) registry_ts
   \<and> filter (wildcardOrContains ''0x00'') registry_ts = []
   \<and> candidatesOf registry_ts ''0xe75cbd47620dbb2053cf2a98d06840f06baaf141'' 1934743 = registry_ts"
  by (simp add: registry_ts_def candidatesOf_def wildcardOrContains_def rangeContains_def)

theorem resolveDecoder_spec_witness:
  "list_all (\<lambda>e. veTo e \<noteq> Some 0) registry_ts
   \<and> generatedResolveDecoder registry_ts ''0xe75cbd47620dbb2053cf2a98d06840f06baaf141'' 1934744 = Inr ''v0.1.0''
   \<and> generatedResolveDecoder registry_ts ''0xe75cbd47620dbb2053cf2a98d06840f06baaf141'' 9999999 = Inr ''v0.1.0''
   \<and> generatedResolveDecoder registry_ts ''0xe75cbd47620dbb2053cf2a98d06840f06baaf141'' 1934743 = Inr ''v0.1.0''
   \<and> candidatesOf registry_ts ''0xe75cbd47620dbb2053cf2a98d06840f06baaf141'' 1934743 = registry_ts
   \<and> filter (wildcardOrContains ''0x00'') registry_ts = []
   \<and> generatedResolveDecoder registry_ts ''0x00'' 1934744
       = Inl (Error ''No decoder version found for address 0x00'')"
  using resolveDecoder_spec[of registry_ts "''0xe75cbd47620dbb2053cf2a98d06840f06baaf141''" 1934743]
    resolveDecoder_spec[of registry_ts "''0x00''" 1934744]
    registry_examples registry_hyps
  by simp

text \<open>
  The address is compared as given: the registered address in upper case resolves to
  nothing, although its lowercase form is registered.
\<close>

lemma lower_address:
  "toLowerCase ''0xE75CBD47620DBB2053CF2A98D06840F06BAAF141'' = ''0xe75cbd47620dbb2053cf2a98d06840f06baaf141''"
  by code_simp

theorem resolveDecoder_case_counterexample:
  "toLowerCase ''0xE75CBD47620DBB2053CF2A98D06840F06BAAF141'' = ''0xe75cbd47620dbb2053cf2a98d06840f06baaf141''
   \<and> generatedResolveDecoder registry_ts (toLowerCase ''0xE75CBD47620DBB2053CF2A98D06840F06BAAF141'') 1934744
       = Inr ''v0.1.0''
   \<and> generatedResolveDecoder registry_ts ''0xE75CBD47620DBB2053CF2A98D06840F06BAAF141'' 1934744
       = Inl (Error ''No decoder version found for address 0xE75CBD47620DBB2053CF2A98D06840F06BAAF141'')"
  unfolding lower_address
  by (simp add: generatedResolveDecoder_def resolveDecoder_def registry_ts_def addressMatch_def
        rangeMatch_def sortWith_def)

text \<open>An entry with \<open>to = 0\<close> counts as open-ended, since \<open>!e.to\<close> holds for 0.\<close>

lemma rangeMatch_to_zero:
  "rangeContains 5 \<lparr>veVersion = ''v1'', veAddresses = None, veCodeHash = None, veFrom = None, veTo = Some 0\<rparr> = False
   \<and> rangeMatch 5 \<lparr>veVersion = ''v1'', veAddresses = None, veCodeHash = None, veFrom = None, veTo = Some 0\<rparr> = True"
  by (simp add: rangeContains_def rangeMatch_def)

subsection \<open>Metadata validation\<close>

lemma getProp_docField:
  "getProp v k = (case docField v k of None \<Rightarrow> JUndefined | Some x \<Rightarrow> x)"
  by (cases v) (simp_all add: getProp_def docField_def)

lemma someSignature_ok:
  "\<not> list_ex nullish es \<Longrightarrow> someSignature es = Inr (list_ex carriesSignature es)"
proof (induction es)
  case Nil
  show ?case by simp
next
  case (Cons e es)
  have "truthy (getProp e ''signature_topic'') = carriesSignature e"
    by (simp add: getProp_docField carriesSignature_def truthy_def split: option.splits)
  with Cons show ?case by simp
qed

lemma falsy_no_field: "\<not> truthy doc \<Longrightarrow> docField doc k = None"
  by (cases doc) (simp_all add: truthy_def docField_def)

lemma events_cases:
  "(truthy (getProp doc ''spec'') \<and> truthy (getProp (getProp doc ''spec'') ''events'')
     \<and> isArray (getProp (getProp doc ''spec'') ''events''))
   = (eventsList doc \<noteq> None)"
  "eventsList doc = Some es \<Longrightarrow> getProp (getProp doc ''spec'') ''events'' = JArr es"
proof -
  show "(truthy (getProp doc ''spec'') \<and> truthy (getProp (getProp doc ''spec'') ''events'')
     \<and> isArray (getProp (getProp doc ''spec'') ''events''))
   = (eventsList doc \<noteq> None)"
  proof (cases "docField doc ''spec''")
    case None
    then show ?thesis by (simp add: getProp_docField eventsList_def truthy_def)
  next
    case (Some spec)
    show ?thesis
    proof (cases "docField spec ''events''")
      case None
      then show ?thesis using Some
        by (simp add: getProp_docField eventsList_def truthy_def isArray_def)
    next
      case (Some ev)
      then show ?thesis using \<open>docField doc ''spec'' = Some spec\<close>
        by (cases ev) (auto simp: getProp_docField eventsList_def truthy_def isArray_def docField_def split: jsval.splits)
    qed
  qed
  show "eventsList doc = Some es \<Longrightarrow> getProp (getProp doc ''spec'') ''events'' = JArr es"
    by (auto simp: getProp_docField eventsList_def split: option.splits jsval.splits)
qed

lemma types_cases:
  "(truthy (getProp doc ''types'') \<and> isArray (getProp doc ''types'')) = (typesList doc \<noteq> None)"
  by (auto simp: getProp_docField typesList_def truthy_def isArray_def split: option.splits jsval.splits)

lemma version_cases:
  "(getProp doc ''version'' = JNum 6) = (docField doc ''version'' = Some (JNum 6))"
  by (auto simp: getProp_docField split: option.splits)

text \<open>
  C7 (amended). For every metadata document whose event list has no \<open>null\<close> entry,
  \<open>validateMetadata\<close> throws one of its errors if and only if the document's version
  field is not 6; or \<open>spec.events\<close> is missing or not a list; or \<open>types\<close> is missing or not
  a list; or no event carries a signature. Otherwise it returns, and the event list and the
  type list that \<open>generateEventsTs\<close> reads are there.
\<close>

theorem validateMetadata_spec:
  "noNullEvent doc \<longrightarrow>
     (invalidMetadata doc \<longrightarrow> (\<exists>msg. validateMetadata doc = Inl (Error msg)))
     \<and> (\<not> invalidMetadata doc \<longrightarrow>
          validateMetadata doc = Inr ()
          \<and> (\<exists>es ts. eventsList doc = Some es \<and> typesList doc = Some ts))"
proof (intro impI conjI)
  assume nn: "noNullEvent doc"
  {
    assume inv: "invalidMetadata doc"
    show "\<exists>msg. validateMetadata doc = Inl (Error msg)"
    proof (cases "truthy doc")
      case False
      then show ?thesis by (simp add: validateMetadata_def)
    next
      case True
      show ?thesis
      proof (cases "docField doc ''version'' = Some (JNum 6)")
        case False
        then show ?thesis using True by (simp add: validateMetadata_def version_cases)
      next
        case v: True
        show ?thesis
        proof (cases "eventsList doc")
          case None
          then show ?thesis using True v events_cases(1)[of doc]
            by (auto simp: validateMetadata_def version_cases)
        next
          case (Some es)
          note ev = events_cases(2)[OF Some]
          have evt: "truthy (getProp doc ''spec'') \<and> truthy (getProp (getProp doc ''spec'') ''events'')
                 \<and> isArray (getProp (getProp doc ''spec'') ''events'')"
            using events_cases(1)[of doc] Some by simp
          show ?thesis
          proof (cases "typesList doc")
            case None
            then show ?thesis using True v evt types_cases[of doc]
              by (auto simp: validateMetadata_def version_cases)
          next
            case (Some ts)
            then have ty: "truthy (getProp doc ''types'') \<and> isArray (getProp doc ''types'')"
              using types_cases[of doc] by simp
            from inv v Some \<open>eventsList doc = Some es\<close> have nosig: "\<not> list_ex carriesSignature es"
              by (simp add: invalidMetadata_def)
            from nn \<open>eventsList doc = Some es\<close> have "\<not> list_ex nullish es" by (simp add: noNullEvent_def)
            from someSignature_ok[OF this] nosig have "someSignature es = Inr False" by simp
            then show ?thesis using True v evt ty
              by (simp add: validateMetadata_def version_cases ev)
          qed
        qed
      qed
    qed
  }
  {
    assume ok: "\<not> invalidMetadata doc"
    then obtain es ts where v: "docField doc ''version'' = Some (JNum 6)"
      and es: "eventsList doc = Some es" and ts: "typesList doc = Some ts"
      and sig: "list_ex carriesSignature es"
      by (auto simp: invalidMetadata_def split: option.splits)
    from v have t: "truthy doc" using falsy_no_field[of doc "''version''"] by auto
    have evt: "truthy (getProp doc ''spec'') \<and> truthy (getProp (getProp doc ''spec'') ''events'')
                 \<and> isArray (getProp (getProp doc ''spec'') ''events'')"
      using events_cases(1)[of doc] es by simp
    have ty: "truthy (getProp doc ''types'') \<and> isArray (getProp doc ''types'')"
      using types_cases[of doc] ts by simp
    from nn es have "\<not> list_ex nullish es" by (simp add: noNullEvent_def)
    from someSignature_ok[OF this] sig have "someSignature es = Inr True" by simp
    then show "validateMetadata doc = Inr ()" using t v evt ty
      by (simp add: validateMetadata_def version_cases events_cases(2)[OF es])
    from es ts show "\<exists>es ts. eventsList doc = Some es \<and> typesList doc = Some ts" by blast
  }
qed

lemma metadata_examples:
  "validateMetadata
     (JObj [(''version'', JNum 6),
            (''spec'', JObj [(''events'', JArr [JObj [(''label'', JStr ''E''),
                                                      (''signature_topic'', JStr ''0xab'')]])]),
            (''types'', JArr [JObj [(''id'', JNum 0)]])]) = Inr ()
   \<and> validateMetadata
     (JObj [(''version'', JNum 5),
            (''spec'', JObj [(''events'', JArr [JObj [(''label'', JStr ''E''),
                                                      (''signature_topic'', JStr ''0xab'')]])]),
            (''types'', JArr [JObj [(''id'', JNum 0)]])]) = Inl (Error ''Unsupported Ink! version'')
   \<and> validateMetadata
     (JObj [(''version'', JNum 6),
            (''spec'', JObj [(''events'', JArr [JObj [(''label'', JStr ''E'')]])]),
            (''types'', JArr [])]) = Inl (Error ''No events with signature_topic found'')"
  by code_simp

lemma metadata_hyps:
  "noNullEvent
     (JObj [(''version'', JNum 6),
            (''spec'', JObj [(''events'', JArr [JObj [(''label'', JStr ''E''),
                                                      (''signature_topic'', JStr ''0xab'')]])]),
            (''types'', JArr [JObj [(''id'', JNum 0)]])])
   \<and> \<not> invalidMetadata
     (JObj [(''version'', JNum 6),
            (''spec'', JObj [(''events'', JArr [JObj [(''label'', JStr ''E''),
                                                      (''signature_topic'', JStr ''0xab'')]])]),
            (''types'', JArr [JObj [(''id'', JNum 0)]])])
   \<and> noNullEvent
     (JObj [(''version'', JNum 5),
            (''spec'', JObj [(''events'', JArr [JObj [(''label'', JStr ''E''),
                                                      (''signature_topic'', JStr ''0xab'')]])]),
            (''types'', JArr [JObj [(''id'', JNum 0)]])])
   \<and> invalidMetadata
     (JObj [(''version'', JNum 5),
            (''spec'', JObj [(''events'', JArr [JObj [(''label'', JStr ''E''),
                                                      (''signature_topic'', JStr ''0xab'')]])]),
            (''types'', JArr [JObj [(''id'', JNum 0)]])])
   \<and> noNullEvent
     (JObj [(''version'', JNum 6),
            (''spec'', JObj [(''events'', JArr [JObj [(''label'', JStr ''E'')]])]),
            (''types'', JArr [])])
   \<and> invalidMetadata
     (JObj [(''version'', JNum 6),
            (''spec'', JObj [(''events'', JArr [JObj [(''label'', JStr ''E'')]])]),
            (''types'', JArr [])])"
  by code_simp

theorem validateMetadata_spec_witness:
  "noNullEvent
     (JObj [(''version'', JNum 6),
            (''spec'', JObj [(''events'', JArr [JObj [(''label'', JStr ''E''),
                                                      (''signature_topic'', JStr ''0xab'')]])]),
            (''types'', JArr [JObj [(''id'', JNum 0)]])])
   \<and> \<not> invalidMetadata
     (JObj [(''version'', JNum 6),
            (''spec'', JObj [(''events'', JArr [JObj [(''label'', JStr ''E''),
                                                      (''signature_topic'', JStr ''0xab'')]])]),
            (''types'', JArr [JObj [(''id'', JNum 0)]])])
   \<and> validateMetadata
     (JObj [(''version'', JNum 6),
            (''spec'', JObj [(''events'', JArr [JObj [(''label'', JStr ''E''),
                                                      (''signature_topic'', JStr ''0xab'')]])]),
            (''types'', JArr [JObj [(''id'', JNum 0)]])]) = Inr ()
   \<and> invalidMetadata
     (JObj [(''version'', JNum 5),
            (''spec'', JObj [(''events'', JArr [JObj [(''label'', JStr ''E''),
                                                      (''signature_topic'', JStr ''0xab'')]])]),
            (''types'', JArr [JObj [(''id'', JNum 0)]])])
   \<and> validateMetadata
     (JObj [(''version'', JNum 5),
            (''spec'', JObj [(''events'', JArr [JObj [(''label'', JStr ''E''),
                                                      (''signature_topic'', JStr ''0xab'')]])]),
            (''types'', JArr [JObj [(''id'', JNum 0)]])]) = Inl (Error ''Unsupported Ink! version'')
   \<and> invalidMetadata
     (JObj [(''version'', JNum 6),
            (''spec'', JObj [(''events'', JArr [JObj [(''label'', JStr ''E'')]])]),
            (''types'', JArr [])])
   \<and> validateMetadata
     (JObj [(''version'', JNum 6),
            (''spec'', JObj [(''events'', JArr [JObj [(''label'', JStr ''E'')]])]),
            (''types'', JArr [])]) = Inl (Error ''No events with signature_topic found'')"
  using validateMetadata_spec
    [of "JObj [(''version'', JNum 6),
               (''spec'', JObj [(''events'', JArr [JObj [(''label'', JStr ''E''),
                                                         (''signature_topic'', JStr ''0xab'')]])]),
               (''types'', JArr [JObj [(''id'', JNum 0)]])]"]
    validateMetadata_spec
    [of "JObj [(''version'', JNum 5),
               (''spec'', JObj [(''events'', JArr [JObj [(''label'', JStr ''E''),
                                                         (''signature_topic'', JStr ''0xab'')]])]),
               (''types'', JArr [JObj [(''id'', JNum 0)]])]"]
    validateMetadata_spec
    [of "JObj [(''version'', JNum 6),
               (''spec'', JObj [(''events'', JArr [JObj [(''label'', JStr ''E'')]])]),
               (''types'', JArr [])]"]
    metadata_examples metadata_hyps
  by simp

text \<open>
  The loader of the interpreting decoder has no version check and takes a missing list as
  empty: a document of version 5 loads.
\<close>

theorem loadMetadata_version_counterexample:
  "invalidMetadata
     (JObj [(''version'', JNum 5),
            (''spec'', JObj [(''events'', JArr [JObj [(''label'', JStr ''E''),
                                                      (''signature_topic'', JStr ''0xab'')]])]),
            (''types'', JArr [JObj [(''id'', JNum 0)]])])
   \<and> loadMetadata
     (JObj [(''version'', JNum 5),
            (''spec'', JObj [(''events'', JArr [JObj [(''label'', JStr ''E''),
                                                      (''signature_topic'', JStr ''0xab'')]])]),
            (''types'', JArr [JObj [(''id'', JNum 0)]])])
     = Inr ([(''ab'', JObj [(''label'', JStr ''E''), (''signature_topic'', JStr ''0xab'')])],
            [(JNum 0, JObj [(''id'', JNum 0)])])
   \<and> loadMetadata (JObj []) = Inr ([], [])"
  by code_simp

subsection \<open>Unknown signatures\<close>











subsection \<open>Repeated decoding\<close>






end
